theory Spec2Isabelle
  imports Complex_Main "HOL-Library.AList" "HOL-Library.Char_ord" "HOL-Library.List_Lexorder"
begin

section \<open>API errors\<close>

text \<open>
  Go byte slices and Go strings are both modelled as \<open>string\<close> (a list of bytes);
  the conversion \<^verbatim>\<open>string(body)\<close> is the identity on the bytes. Go's \<^verbatim>\<open>int\<close> status
  code is an \<open>int\<close>: no arithmetic is done on it.
\<close>

record APIError =
  StatusCode :: int
  Message :: string
  RawBody :: string

text \<open>
  The anonymous struct \<^verbatim>\<open>errResp\<close> that \<^verbatim>\<open>newAPIError\<close> decodes the body into.
\<close>

record errResp =
  errResp_Message :: string
  errResp_Error :: string

text \<open>
  \<^verbatim>\<open>json.Unmarshal\<close> belongs to the Go standard library, not to this repository; it is a
  parameter of the model. \<open>unmarshalErr body = None\<close> stands for a non-nil error of
  \<^verbatim>\<open>json.Unmarshal(body, &errResp)\<close>, \<open>Some r\<close> for a nil error with the struct
  filled as \<open>r\<close>.
\<close>

definition newAPIError :: "(string \<Rightarrow> errResp option) \<Rightarrow> int \<Rightarrow> string \<Rightarrow> APIError" where
  "newAPIError unmarshalErr statusCode body =
    (let apiErr = \<lparr>StatusCode = statusCode, Message = [], RawBody = body\<rparr>;
         apiErr = (case unmarshalErr body of
                     Some r \<Rightarrow>
                       if errResp_Message r \<noteq> [] then apiErr\<lparr>Message := errResp_Message r\<rparr>
                       else if errResp_Error r \<noteq> [] then apiErr\<lparr>Message := errResp_Error r\<rparr>
                       else apiErr
                   | None \<Rightarrow> apiErr)
     in if Message apiErr = [] then apiErr\<lparr>Message := body\<rparr> else apiErr)"

datatype ctx_error = Canceled | DeadlineExceeded

text \<open>
  The errors a call can return: the three wrapped generic errors of \<^verbatim>\<open>do\<close> (each
  carrying the text of its cause), an \<open>APIError\<close>, and \<^verbatim>\<open>ctx.Err()\<close>.
\<close>

datatype error =
    ExecutingRequest string
  | ReadingResponse string
  | DecodingResponse string
  | API APIError
  | Ctx ctx_error

section \<open>Retry policy\<close>

text \<open>
  \<^verbatim>\<open>time.Duration\<close> is an \<^verbatim>\<open>int64\<close> count of nanoseconds: an \<open>int\<close> here, with the
  two's-complement wrap-around of a product written out in \<open>wrap64\<close>.
\<close>

record retryConfig =
  maxRetries :: int
  initialDelay :: int
  maxDelay :: int

record retryHint =
  retryAfter :: string

definition time_Second :: int where
  "time_Second = 1000000000"

definition wrap64 :: "int \<Rightarrow> int" where
  "wrap64 x = (x + 2 ^ 63) mod 2 ^ 64 - 2 ^ 63"

definition isDigit :: "char \<Rightarrow> bool" where
  "isDigit c = (48 \<le> (of_char c :: nat) \<and> (of_char c :: nat) \<le> 57)"

fun digitsValue :: "int \<Rightarrow> string \<Rightarrow> int" where
  "digitsValue n [] = n"
| "digitsValue n (c # cs) = digitsValue (n * 10 + (int (of_char c) - 48)) cs"

text \<open>
  \<^verbatim>\<open>strconv.Atoi\<close> of the Go standard library on a 64-bit platform: an optional sign,
  then one or more decimal digits and nothing else, the value within the range of
  \<^verbatim>\<open>int\<close>; \<open>None\<close> is its non-nil error.
\<close>

definition Atoi :: "string \<Rightarrow> int option" where
  "Atoi s =
    (case s of
       [] \<Rightarrow> None
     | c # cs \<Rightarrow>
        (let neg = (c = CHR ''-'');
             ds = (if c = CHR ''-'' \<or> c = CHR ''+'' then cs else s)
         in if ds = [] \<or> \<not> list_all isDigit ds then None
            else (let n = digitsValue 0 ds; v = (if neg then - n else n)
                  in if v < - (2 ^ 63) \<or> 2 ^ 63 - 1 < v then None else Some v)))"

text \<open>
  The conversion \<^verbatim>\<open>time.Duration(jitter)\<close> of a \<^verbatim>\<open>float64\<close> truncates toward zero.
\<close>

definition durationOfFloat :: "real \<Rightarrow> int" where
  "durationOfFloat x = (if 0 \<le> x then \<lfloor>x\<rfloor> else \<lceil>x\<rceil>)"

text \<open>
  A \<^verbatim>\<open>float64\<close> is a real with a significand of 53 bits. \<open>float64 x\<close> is the rounding
  every \<^verbatim>\<open>float64\<close> operation and the conversion of an integer apply to their exact
  result \<open>x\<close>: to the nearest such value, a tie going to the even significand
  (\<open>roundEven\<close>). The exponent is not bounded here: there is no overflow to infinity and
  there are no subnormal numbers.
\<close>

definition roundEven :: "real \<Rightarrow> int" where
  "roundEven x =
    (let f = \<lfloor>x\<rfloor>; d = x - real_of_int f
     in if d < 1 / 2 then f else if 1 / 2 < d then f + 1 else if even f then f else f + 1)"

definition float64 :: "real \<Rightarrow> real" where
  "float64 x =
    (if x = 0 then 0
     else (let ulp = 2 powr real_of_int (\<lfloor>log 2 \<bar>x\<bar>\<rfloor> - 52)
           in real_of_int (roundEven (x / ulp)) * ulp))"

text \<open>
  The exponential-backoff part of \<^verbatim>\<open>calculateDelay\<close>, each operation rounded as
  \<^verbatim>\<open>float64\<close> does; \<open>u\<close> is the value drawn by \<^verbatim>\<open>rand.Float64()\<close>, in \<open>[0, 1)\<close>.
  \<^verbatim>\<open>math.Pow(2, float64(attempt))\<close> is the power of two itself (for an attempt of 1024
  and more it is the infinity, which a positive initial delay leaves above every cap as
  the power does here). The conversion \<^verbatim>\<open>time.Duration(jitter)\<close> is the truncation for
  a value within the range of \<^verbatim>\<open>int64\<close>; outside that range Go leaves the result to the
  implementation and \<open>durationOfFloat\<close> does not model it.
\<close>

definition backoffDelay :: "retryConfig \<Rightarrow> nat \<Rightarrow> real \<Rightarrow> int" where
  "backoffDelay r attempt u =
    (let backoff = float64 (float64 (real_of_int (initialDelay r)) * 2 ^ attempt);
         backoff = (if backoff > float64 (real_of_int (maxDelay r))
                    then float64 (real_of_int (maxDelay r)) else backoff);
         jitter = float64 (backoff * float64 (0.5 + float64 (u * 0.5)))
     in durationOfFloat jitter)"

definition calculateDelay :: "retryConfig \<Rightarrow> nat \<Rightarrow> retryHint option \<Rightarrow> real \<Rightarrow> int" where
  "calculateDelay r attempt hint u =
    (case hint of
       None \<Rightarrow> backoffDelay r attempt u
     | Some h \<Rightarrow>
        if retryAfter h \<noteq> [] then
          (case Atoi (retryAfter h) of
             Some seconds \<Rightarrow> wrap64 (seconds * time_Second)
           | None \<Rightarrow> backoffDelay r attempt u)
        else backoffDelay r attempt u)"

text \<open>
  The loop of \<^verbatim>\<open>retryConfig.do\<close>. \<open>fn i s\<close> is what the \<open>i\<close>-th invocation of the
  closure returns (hint, error) when the caller's decode target is in state \<open>s\<close>, and
  the new state of the target. \<open>ctx attempt delay\<close> is the outcome of the
  \<^verbatim>\<open>select\<close>: \<open>Some e\<close> when \<^verbatim>\<open>ctx.Done()\<close> fires first and \<^verbatim>\<open>ctx.Err()\<close> is \<open>e\<close>,
  \<open>None\<close> when the timer elapses first. \<open>rnd attempt\<close> is the jitter draw of that
  iteration. The result carries the number of invocations of \<open>fn\<close>.
  \<^verbatim>\<open>range r.maxRetries + 1\<close> runs no iteration when the bound is not positive; the
  bound is computed in the 64-bit \<^verbatim>\<open>int\<close>, so it wraps around for the largest value.
\<close>

definition loopBound :: "retryConfig \<Rightarrow> int" where
  "loopBound r = wrap64 (maxRetries r + 1)"

function retryLoop ::
  "retryConfig \<Rightarrow> (nat \<Rightarrow> 's \<Rightarrow> (retryHint option \<times> error option) \<times> 's) \<Rightarrow>
   (nat \<Rightarrow> int \<Rightarrow> ctx_error option) \<Rightarrow> (nat \<Rightarrow> real) \<Rightarrow>
   nat \<Rightarrow> error option \<Rightarrow> nat \<Rightarrow> 's \<Rightarrow> (error option \<times> nat) \<times> 's" where
  "retryLoop r fn ctx rnd attempt lastErr calls s =
    (if int attempt < loopBound r then
       (case fn calls s of
          ((hint, None), s') \<Rightarrow> ((None, calls + 1), s')
        | ((hint, Some err), s') \<Rightarrow>
            if hint = None \<or> int attempt = maxRetries r then ((Some err, calls + 1), s')
            else
              (case ctx attempt (calculateDelay r attempt hint (rnd attempt)) of
                 Some e \<Rightarrow> ((Some (Ctx e), calls + 1), s')
               | None \<Rightarrow> retryLoop r fn ctx rnd (attempt + 1) (Some err) (calls + 1) s'))
     else ((lastErr, calls), s))"
  by pat_completeness auto
termination
  by (relation "measure (\<lambda>(r, fn, ctx, rnd, attempt, lastErr, calls, s).
                  nat (loopBound r) - attempt)") auto

declare retryLoop.simps [simp del]

definition retryConfig_do ::
  "retryConfig \<Rightarrow> (nat \<Rightarrow> 's \<Rightarrow> (retryHint option \<times> error option) \<times> 's) \<Rightarrow>
   (nat \<Rightarrow> int \<Rightarrow> ctx_error option) \<Rightarrow> (nat \<Rightarrow> real) \<Rightarrow> 's \<Rightarrow> (error option \<times> nat) \<times> 's" where
  "retryConfig_do r fn ctx rnd s = retryLoop r fn ctx rnd 0 None 0 s"

section \<open>Request executor\<close>

record Client =
  apiKey :: string
  baseURL :: string
  retry :: "retryConfig option"

record response =
  resp_StatusCode :: int
  resp_Header :: "(string \<times> string) list"
  resp_Body :: string

text \<open>
  What one round trip gives: \<^verbatim>\<open>httpClient.Do\<close> fails, or it answers and reading the
  body fails, or the response is received with its body.
\<close>

datatype http_result =
    DoFailed string
  | ReadFailed string
  | Received response

definition Header_Get :: "(string \<times> string) list \<Rightarrow> string \<Rightarrow> string" where
  "Header_Get h key = (case map_of h key of Some v \<Rightarrow> v | None \<Rightarrow> [])"

definition isRetryable :: "int \<Rightarrow> bool" where
  "isRetryable statusCode = (statusCode = 429 \<or> statusCode \<ge> 500)"

text \<open>
  The decode target \<^verbatim>\<open>result any\<close> is \<open>None\<close> when nil. \<open>unmarshal body t\<close> models
  \<^verbatim>\<open>json.Unmarshal(respBody, result)\<close> on a target in state \<open>t\<close>: its error, if any,
  and the state it leaves the target in.
\<close>

definition execute ::
  "(string \<Rightarrow> errResp option) \<Rightarrow> (string \<Rightarrow> 't \<Rightarrow> string option \<times> 't) \<Rightarrow>
   http_result \<Rightarrow> 't option \<Rightarrow> error option \<times> 't option" where
  "execute unmarshalErr unmarshal res result =
    (case res of
       DoFailed e \<Rightarrow> (Some (ExecutingRequest e), result)
     | ReadFailed e \<Rightarrow> (Some (ReadingResponse e), result)
     | Received resp \<Rightarrow>
        if resp_StatusCode resp < 200 \<or> resp_StatusCode resp \<ge> 300 then
          (Some (API (newAPIError unmarshalErr (resp_StatusCode resp) (resp_Body resp))), result)
        else
          (case result of
             None \<Rightarrow> (None, None)
           | Some t \<Rightarrow>
              (case unmarshal (resp_Body resp) t of
                 (Some e, t') \<Rightarrow> (Some (DecodingResponse e), Some t')
               | (None, t') \<Rightarrow> (None, Some t'))))"

text \<open>The closure handed to \<^verbatim>\<open>retryConfig.do\<close> when a retry configuration is set.\<close>

definition retryFn ::
  "(string \<Rightarrow> errResp option) \<Rightarrow> (string \<Rightarrow> 't \<Rightarrow> string option \<times> 't) \<Rightarrow>
   http_result \<Rightarrow> 't option \<Rightarrow> (retryHint option \<times> error option) \<times> 't option" where
  "retryFn unmarshalErr unmarshal res result =
    (case res of
       DoFailed e \<Rightarrow> ((None, Some (ExecutingRequest e)), result)
     | ReadFailed e \<Rightarrow> ((None, Some (ReadingResponse e)), result)
     | Received resp \<Rightarrow>
        if resp_StatusCode resp < 200 \<or> resp_StatusCode resp \<ge> 300 then
          (let apiErr = newAPIError unmarshalErr (resp_StatusCode resp) (resp_Body resp)
           in if isRetryable (resp_StatusCode resp) then
                (let hint = \<lparr>retryAfter = []\<rparr>;
                     ra = Header_Get (resp_Header resp) ''Retry-After'';
                     hint = (if ra \<noteq> [] then hint\<lparr>retryAfter := ra\<rparr> else hint)
                 in ((Some hint, Some (API apiErr)), result))
              else ((None, Some (API apiErr)), result))
        else
          (case result of
             None \<Rightarrow> ((None, None), None)
           | Some t \<Rightarrow>
              (case unmarshal (resp_Body resp) t of
                 (Some e, t') \<Rightarrow> ((None, Some (DecodingResponse e)), Some t')
               | (None, t') \<Rightarrow> ((None, None), Some t'))))"

text \<open>
  \<^verbatim>\<open>Client.do\<close>: \<open>transport i\<close> is the outcome of the \<open>i\<close>-th round trip. The
  result carries the number of round trips made.
\<close>

definition Client_do ::
  "Client \<Rightarrow> (string \<Rightarrow> errResp option) \<Rightarrow> (string \<Rightarrow> 't \<Rightarrow> string option \<times> 't) \<Rightarrow>
   (nat \<Rightarrow> http_result) \<Rightarrow> (nat \<Rightarrow> int \<Rightarrow> ctx_error option) \<Rightarrow> (nat \<Rightarrow> real) \<Rightarrow>
   't option \<Rightarrow> (error option \<times> nat) \<times> 't option" where
  "Client_do c unmarshalErr unmarshal transport ctx rnd result =
    (case retry c of
       Some r \<Rightarrow>
         retryConfig_do r (\<lambda>i s. retryFn unmarshalErr unmarshal (transport i) s) ctx rnd result
     | None \<Rightarrow>
         (case execute unmarshalErr unmarshal (transport 0) result of
            (err, result') \<Rightarrow> ((err, 1), result')))"

section \<open>Request URL\<close>

text \<open>
  \<^verbatim>\<open>url.Values\<close> is a Go map from a key to a list of values. It is modelled by an
  association list read through \<open>map_of\<close>; the order of the list stands for the
  unspecified iteration order of the Go map, and \<open>None\<close> for a nil map.
  \<^verbatim>\<open>Values.Set\<close>, \<^verbatim>\<open>Values.Encode\<close> and \<^verbatim>\<open>url.QueryEscape\<close> belong to the Go
  standard library; they are modelled after their documented behaviour:
  \<^verbatim>\<open>Set\<close> replaces the values of a key by one value, \<^verbatim>\<open>Encode\<close> writes
  \<^verbatim>\<open>key=value\<close> pairs sorted by key and joined by \<^verbatim>\<open>&\<close>, \<^verbatim>\<open>QueryEscape\<close> keeps
  letters, digits and \<^verbatim>\<open>-_.~\<close>, writes a space as \<^verbatim>\<open>+\<close> and any other byte as
  \<^verbatim>\<open>%XX\<close>.
\<close>

type_synonym Values = "(string \<times> string list) list"

definition Values_Set :: "Values \<Rightarrow> string \<Rightarrow> string \<Rightarrow> Values" where
  "Values_Set v key val = AList.update key [val] v"

definition shouldEscape :: "char \<Rightarrow> bool" where
  "shouldEscape c =
    (\<not> ((CHR ''a'' \<le> c \<and> c \<le> CHR ''z'') \<or> (CHR ''A'' \<le> c \<and> c \<le> CHR ''Z'') \<or>
        (CHR ''0'' \<le> c \<and> c \<le> CHR ''9'') \<or>
        c = CHR ''-'' \<or> c = CHR ''_'' \<or> c = CHR ''.'' \<or> c = CHR ''~''))"

definition upperhex :: string where
  "upperhex = ''0123456789ABCDEF''"

fun QueryEscape :: "string \<Rightarrow> string" where
  "QueryEscape [] = []"
| "QueryEscape (c # cs) =
    (if shouldEscape c then
       (if c = CHR '' '' then CHR ''+'' # QueryEscape cs
        else CHR ''%'' # upperhex ! (of_char c div 16) # upperhex ! (of_char c mod 16) #
             QueryEscape cs)
     else c # QueryEscape cs)"

text \<open>
  The pairs in the order \<^verbatim>\<open>Encode\<close> visits them (keys sorted, the values of a key in
  their order), and its loop over them with the buffer it appends to.
\<close>

definition queryPairs :: "Values \<Rightarrow> (string \<times> string) list" where
  "queryPairs v =
    concat (map (\<lambda>k. map (\<lambda>x. (k, x)) (case map_of v k of Some vs \<Rightarrow> vs | None \<Rightarrow> []))
                (sort (remdups (map fst v))))"

fun writePairs :: "string \<Rightarrow> (string \<times> string) list \<Rightarrow> string" where
  "writePairs buf [] = buf"
| "writePairs buf ((k, x) # ps) =
    writePairs ((if length buf > 0 then buf @ ''&'' else buf) @
                QueryEscape k @ ''='' @ QueryEscape x) ps"

definition Values_Encode :: "Values \<Rightarrow> string" where
  "Values_Encode v = writePairs [] (queryPairs v)"

text \<open>
  \<^verbatim>\<open>buildURL\<close> stores the key in the caller's map when that is not nil;
  \<open>buildURL_params\<close> is the map after the call, \<open>buildURL_query\<close> the query string
  and \<open>buildURL\<close> the returned URL.
\<close>

definition buildURL_params :: "Client \<Rightarrow> Values option \<Rightarrow> Values" where
  "buildURL_params c params =
    Values_Set (case params of None \<Rightarrow> [] | Some p \<Rightarrow> p) ''apiKey'' (apiKey c)"

definition buildURL_query :: "Client \<Rightarrow> Values option \<Rightarrow> string" where
  "buildURL_query c params = Values_Encode (buildURL_params c params)"

definition buildURL :: "Client \<Rightarrow> string \<Rightarrow> Values option \<Rightarrow> string" where
  "buildURL c path params = baseURL c @ path @ ''?'' @ buildURL_query c params"

section \<open>Batch result polling\<close>

text \<open>
  \<open>Results\<close> is \<open>None\<close> for a nil slice; the element type \<^verbatim>\<open>Address\<close> is a type
  parameter.
\<close>

record 'a BatchResultResponse =
  ID :: string
  Status :: string
  Results :: "'a list option"
  Raw :: string

fun bytes_trimLeft :: "string \<Rightarrow> string" where
  "bytes_trimLeft [] = []"
| "bytes_trimLeft (b # bs) =
    (if b \<noteq> CHR '' '' \<and> b \<noteq> CHR 0x09 \<and> b \<noteq> CHR 0x0A \<and> b \<noteq> CHR 0x0D then b # bs
     else bytes_trimLeft bs)"

text \<open>
  The two calls of \<^verbatim>\<open>json.Unmarshal\<close> are parameters: \<open>unmarshalResults data rs\<close> decodes
  into \<^verbatim>\<open>&r.Results\<close>, which holds \<open>rs\<close>, and gives the error, if any, and the slice it
  leaves there; \<open>unmarshalObj data\<close> decodes into the fresh local \<^verbatim>\<open>obj\<close> and gives the
  error or the \<^verbatim>\<open>ID\<close> and \<^verbatim>\<open>Status\<close> of \<^verbatim>\<open>obj\<close>.
\<close>

definition UnmarshalJSON ::
  "(string \<Rightarrow> 'a list option \<Rightarrow> string option \<times> 'a list option) \<Rightarrow>
   (string \<Rightarrow> string + string \<times> string) \<Rightarrow>
   'a BatchResultResponse \<Rightarrow> string \<Rightarrow> string option \<times> 'a BatchResultResponse" where
  "UnmarshalJSON unmarshalResults unmarshalObj r0 data =
    (let r = r0\<lparr>Raw := data\<rparr>;
         trimmed = bytes_trimLeft data
     in if length trimmed > 0 \<and> trimmed ! 0 = CHR ''['' then
          (case unmarshalResults data (Results r) of (err, rs) \<Rightarrow> (err, r\<lparr>Results := rs\<rparr>))
        else
          (case unmarshalObj data of
             Inl err \<Rightarrow> (Some err, r)
           | Inr (obj_ID, obj_Status) \<Rightarrow> (None, r\<lparr>ID := obj_ID, Status := obj_Status\<rparr>)))"

definition zeroBatchResultResponse :: "'a BatchResultResponse" where
  "zeroBatchResultResponse = \<lparr>ID = [], Status = [], Results = None, Raw = []\<rparr>"

section \<open>Terms of the specification\<close>

text \<open>
  A dispatch outcome is a retryable failure when it is a response outside \<open>[200, 300)\<close>
  that \<open>isRetryable\<close> accepts. \<open>leadingRetryable tr i n\<close> counts the consecutive
  retryable failures of the outcome sequence \<open>tr\<close> from index \<open>i\<close> on, looking at no
  more than \<open>n\<close> outcomes.
\<close>

definition retryableFailure :: "http_result \<Rightarrow> bool" where
  "retryableFailure res =
    (case res of
       Received resp \<Rightarrow>
         (resp_StatusCode resp < 200 \<or> resp_StatusCode resp \<ge> 300) \<and>
         isRetryable (resp_StatusCode resp)
     | _ \<Rightarrow> False)"

fun leadingRetryable :: "(nat \<Rightarrow> http_result) \<Rightarrow> nat \<Rightarrow> nat \<Rightarrow> nat" where
  "leadingRetryable tr i 0 = 0"
| "leadingRetryable tr i (Suc n) =
    (if retryableFailure (tr i) then Suc (leadingRetryable tr (Suc i) n) else 0)"

text \<open>
  The retry hint a dispatch outcome yields: one for a retryable failure, carrying the
  \<^verbatim>\<open>Retry-After\<close> header of the response (empty when absent), none otherwise.
\<close>

definition retryHintOf :: "http_result \<Rightarrow> retryHint option" where
  "retryHintOf res =
    (case res of
       Received resp \<Rightarrow>
         if retryableFailure res
         then Some \<lparr>retryAfter = Header_Get (resp_Header resp) ''Retry-After''\<rparr>
         else None
     | _ \<Rightarrow> None)"

text \<open>The capped backoff \<open>min(D * 2^k, maxDelay)\<close> of the specification.\<close>

definition cappedBackoff :: "retryConfig \<Rightarrow> nat \<Rightarrow> int" where
  "cappedBackoff r k = min (initialDelay r * 2 ^ k) (maxDelay r)"

definition isWhitespace :: "char \<Rightarrow> bool" where
  "isWhitespace b = (b = CHR '' '' \<or> b = CHR 0x09 \<or> b = CHR 0x0A \<or> b = CHR 0x0D)"

text \<open>
  The first byte of a payload after its leading whitespace, if any, and the values a
  key has in a \<^verbatim>\<open>url.Values\<close> (none for an absent key).
\<close>

definition firstByte :: "string \<Rightarrow> char option" where
  "firstByte data = (case dropWhile isWhitespace data of [] \<Rightarrow> None | b # _ \<Rightarrow> Some b)"

definition valuesOf :: "Values \<Rightarrow> string \<Rightarrow> string list" where
  "valuesOf v k = (case map_of v k of Some vs \<Rightarrow> vs | None \<Rightarrow> [])"

text \<open>
  The outcome of a success: no error and an untouched nil target, or what decoding the
  body into the supplied target gives, its error wrapped as a decoding error.
\<close>

definition decoded ::
  "(string \<Rightarrow> 't \<Rightarrow> string option \<times> 't) \<Rightarrow> string \<Rightarrow> 't option \<Rightarrow> error option \<times> 't option" where
  "decoded um body result =
    (case result of
       None \<Rightarrow> (None, None)
     | Some t \<Rightarrow> (map_option DecodingResponse (fst (um body t)), Some (snd (um body t))))"

section \<open>Sample inputs\<close>

text \<open>
  Inputs taken from the repository's tests. The sample decoders answer as
  \<^verbatim>\<open>json.Unmarshal\<close> does on the bodies the tests use.
\<close>

definition sampleUnmarshalErr :: "string \<Rightarrow> errResp option" where
  \<open>sampleUnmarshalErr b =
    (if b = ''{"message":"Invalid key"}'' then
       Some \<lparr>errResp_Message = ''Invalid key'', errResp_Error = []\<rparr>
     else if b = ''{"message":"rate limited"}'' then
       Some \<lparr>errResp_Message = ''rate limited'', errResp_Error = []\<rparr>
     else if b = ''{"message":"server error"}'' then
       Some \<lparr>errResp_Message = ''server error'', errResp_Error = []\<rparr>
     else if b = ''{"message":"bad request"}'' then
       Some \<lparr>errResp_Message = ''bad request'', errResp_Error = []\<rparr>
     else if b = ''{"error":"Not found"}'' then
       Some \<lparr>errResp_Message = [], errResp_Error = ''Not found''\<rparr>
     else if b = ''{}'' then Some \<lparr>errResp_Message = [], errResp_Error = []\<rparr>
     else None)\<close>

text \<open>The target of the tests is a struct with one field \<^verbatim>\<open>OK bool\<close>.\<close>

definition sampleUnmarshal :: "string \<Rightarrow> bool \<Rightarrow> string option \<times> bool" where
  \<open>sampleUnmarshal b t =
    (if b = ''{"ok":true}'' then (None, True)
     else if b = ''{}'' then (None, t)
     else (Some ''invalid character'', t))\<close>

definition respOK :: response where
  \<open>respOK = \<lparr>resp_StatusCode = 200, resp_Header = [], resp_Body = ''{"ok":true}''\<rparr>\<close>

definition respInvalidKey :: response where
  \<open>respInvalidKey =
    \<lparr>resp_StatusCode = 401, resp_Header = [], resp_Body = ''{"message":"Invalid key"}''\<rparr>\<close>

definition respBadRequest :: response where
  \<open>respBadRequest =
    \<lparr>resp_StatusCode = 400, resp_Header = [], resp_Body = ''{"message":"bad request"}''\<rparr>\<close>

definition respRateLimited :: response where
  \<open>respRateLimited =
    \<lparr>resp_StatusCode = 429, resp_Header = [(''Retry-After'', ''2'')],
     resp_Body = ''{"message":"rate limited"}''\<rparr>\<close>

definition respServerError :: response where
  \<open>respServerError =
    \<lparr>resp_StatusCode = 500, resp_Header = [], resp_Body = ''{"message":"server error"}''\<rparr>\<close>

definition sampleRetry :: retryConfig where
  "sampleRetry = \<lparr>maxRetries = 5, initialDelay = 1000000, maxDelay = 10000000\<rparr>"

definition sampleClient :: Client where
  "sampleClient =
    \<lparr>apiKey = ''test-key'', baseURL = ''https://api.example.com'', retry = None\<rparr>"

definition retryClient :: Client where
  "retryClient = sampleClient\<lparr>retry := Some sampleRetry\<rparr>"

text \<open>
  Outcome sequences of the retry tests, outcomes of the wait (\<open>cancelledInFirstWait\<close>:
  the caller cancels while the loop waits after the first attempt), and a jitter draw.
\<close>

definition alwaysServerError :: "nat \<Rightarrow> http_result" where
  "alwaysServerError i = Received respServerError"

definition rateLimitedTwice :: "nat \<Rightarrow> http_result" where
  "rateLimitedTwice i = (if i < 2 then Received respRateLimited else Received respOK)"

definition alwaysBadRequest :: "nat \<Rightarrow> http_result" where
  "alwaysBadRequest i = Received respBadRequest"

definition neverCancelled :: "nat \<Rightarrow> int \<Rightarrow> ctx_error option" where
  "neverCancelled i d = None"

definition cancelledInFirstWait :: "nat \<Rightarrow> int \<Rightarrow> ctx_error option" where
  "cancelledInFirstWait i d = (if i = 0 then Some Canceled else None)"

definition alwaysRateLimited :: "nat \<Rightarrow> http_result" where
  "alwaysRateLimited i = Received respRateLimited"

definition cancelledInSecondWait :: "nat \<Rightarrow> int \<Rightarrow> ctx_error option" where
  "cancelledInSecondWait i d = (if i = 1 then Some DeadlineExceeded else None)"

definition halfJitter :: "nat \<Rightarrow> real" where
  "halfJitter i = 1 / 2"

text \<open>
  Retry configurations: one of whole nanoseconds, and the one of the option test
  (100 ms, capped at 5 s).
\<close>

definition nanoRetry :: retryConfig where
  "nanoRetry = \<lparr>maxRetries = 3, initialDelay = 1, maxDelay = 10\<rparr>"

definition optionRetry :: retryConfig where
  "optionRetry = \<lparr>maxRetries = 3, initialDelay = 100000000, maxDelay = 5000000000\<rparr>"

text \<open>A configuration whose delays are above \<open>2 ^ 53\<close> nanoseconds.\<close>

definition hugeRetry :: retryConfig where
  "hugeRetry = \<lparr>maxRetries = 3, initialDelay = 9007199254740995, maxDelay = 9007199254740995\<rparr>"

text \<open>
  Decoders for the two batch payloads of the tests (addresses reduced to their city), and
  query parameters in an order that is not the sorted one, with a caller's own
  \<^verbatim>\<open>apiKey\<close>.
\<close>

definition sampleUnmarshalResults ::
  "string \<Rightarrow> string list option \<Rightarrow> string option \<times> string list option" where
  \<open>sampleUnmarshalResults data rs =
    (if data = '' [{"city":"Berlin"},{"city":"Paris"}]'' then (None, Some [''Berlin'', ''Paris''])
     else (Some ''cannot unmarshal'', rs))\<close>

definition sampleUnmarshalObj :: "string \<Rightarrow> string + string \<times> string" where
  \<open>sampleUnmarshalObj data =
    (if data = ''{"id":"job-123","status":"pending"}'' then Inr (''job-123'', ''pending'')
     else Inl ''unexpected end of JSON input'')\<close>

definition reversedParams :: Values where
  "reversedParams = [(''text'', [''Berlin'']), (''lang'', [''de'']), (''apiKey'', [''caller''])]"

section \<open>Error normalisation\<close>

lemma newAPIError_StatusCode: "StatusCode (newAPIError ue s body) = s"
  by (simp add: newAPIError_def Let_def split: option.splits)

lemma newAPIError_RawBody: "RawBody (newAPIError ue s body) = body"
  by (simp add: newAPIError_def Let_def split: option.splits)



text \<open>
  One dispatch, in the plain closure (\<open>execute\<close>) and in the closure under the retry
  policy (\<open>retryFn\<close>) alike: a status in \<open>[200, 300)\<close> is a success, with no error
  when no target is supplied and otherwise the outcome of decoding the body into the
  target; any other status gives the \<open>APIError\<close> built from the status and the body and
  leaves the target as it was.
\<close>

lemma dispatch_classification:
  "(200 \<le> resp_StatusCode resp \<and> resp_StatusCode resp < 300 \<longrightarrow>
      (case result of
         None \<Rightarrow> execute ue um (Received resp) result = (None, None) \<and>
                 retryFn ue um (Received resp) result = ((None, None), None)
       | Some t \<Rightarrow>
           execute ue um (Received resp) result =
             (map_option DecodingResponse (fst (um (resp_Body resp) t)),
              Some (snd (um (resp_Body resp) t))) \<and>
           retryFn ue um (Received resp) result =
             ((None, map_option DecodingResponse (fst (um (resp_Body resp) t))),
              Some (snd (um (resp_Body resp) t))))) \<and>
   (\<not> (200 \<le> resp_StatusCode resp \<and> resp_StatusCode resp < 300) \<longrightarrow>
      execute ue um (Received resp) result =
        (Some (API (newAPIError ue (resp_StatusCode resp) (resp_Body resp))), result) \<and>
      snd (fst (retryFn ue um (Received resp) result)) =
        Some (API (newAPIError ue (resp_StatusCode resp) (resp_Body resp))) \<and>
      snd (retryFn ue um (Received resp) result) = result)"
  by (auto simp: execute_def retryFn_def Let_def split: option.splits prod.splits)

section \<open>The retry loop\<close>

text \<open>One iteration of the loop, by the branch it takes.\<close>

lemma loopBound_eq:
  "- 1 \<le> maxRetries r \<Longrightarrow> maxRetries r < 9223372036854775807 \<Longrightarrow>
   loopBound r = maxRetries r + 1"
  by (simp add: loopBound_def wrap64_def)

lemma in_loop:
  "int a \<le> maxRetries r \<Longrightarrow> maxRetries r < 9223372036854775807 \<Longrightarrow> int a < loopBound r"
  by (simp add: loopBound_eq)

lemma retryLoop_success:
  "int attempt < loopBound r \<Longrightarrow> fn calls s = ((h, None), s') \<Longrightarrow>
   retryLoop r fn ctx rnd attempt lastErr calls s = ((None, calls + 1), s')"
  by (subst retryLoop.simps) simp

lemma retryLoop_no_hint:
  "int attempt < loopBound r \<Longrightarrow> fn calls s = ((None, Some e), s') \<Longrightarrow>
   retryLoop r fn ctx rnd attempt lastErr calls s = ((Some e, calls + 1), s')"
  by (subst retryLoop.simps) simp

lemma retryLoop_exhausted:
  "int attempt < loopBound r \<Longrightarrow> int attempt = maxRetries r \<Longrightarrow> fn calls s = ((h, Some e), s') \<Longrightarrow>
   retryLoop r fn ctx rnd attempt lastErr calls s = ((Some e, calls + 1), s')"
  by (subst retryLoop.simps) simp

lemma retryLoop_cancelled:
  "int attempt < loopBound r \<Longrightarrow> int attempt \<noteq> maxRetries r \<Longrightarrow> fn calls s = ((Some h, Some e), s') \<Longrightarrow>
   ctx attempt (calculateDelay r attempt (Some h) (rnd attempt)) = Some ce \<Longrightarrow>
   retryLoop r fn ctx rnd attempt lastErr calls s = ((Some (Ctx ce), calls + 1), s')"
  by (subst retryLoop.simps) simp

lemma retryLoop_waited:
  "int attempt < loopBound r \<Longrightarrow> int attempt \<noteq> maxRetries r \<Longrightarrow> fn calls s = ((Some h, Some e), s') \<Longrightarrow>
   ctx attempt (calculateDelay r attempt (Some h) (rnd attempt)) = None \<Longrightarrow>
   retryLoop r fn ctx rnd attempt lastErr calls s =
     retryLoop r fn ctx rnd (attempt + 1) (Some e) (calls + 1) s'"
  by (subst retryLoop.simps) simp

text \<open>
  A bound that is not positive (a negative \<open>maxRetries\<close>, or the largest \<^verbatim>\<open>int\<close>, whose
  successor wraps around) leaves the loop without an attempt and without an error.
\<close>

lemma retryConfig_do_no_iteration:
  "loopBound r \<le> 0 \<Longrightarrow> retryConfig_do r fn ctx rnd s = ((None, 0), s)"
  unfolding retryConfig_do_def by (subst retryLoop.simps) simp

lemma loopBound_largest:
  "loopBound \<lparr>maxRetries = 9223372036854775807, initialDelay = d, maxDelay = m\<rparr> =
     - 9223372036854775808"
  by (simp add: loopBound_def wrap64_def)

lemma retryFn_hint: "fst (fst (retryFn ue um res s)) = retryHintOf res"
  by (auto simp: retryableFailure_def retryHintOf_def retryFn_def Let_def
           split: http_result.splits option.splits prod.splits)

lemma retryHintOf_iff: "retryHintOf res \<noteq> None \<longleftrightarrow> retryableFailure res"
  by (auto simp: retryHintOf_def retryableFailure_def split: http_result.splits)

lemma retryFn_retryable:
  "retryableFailure res \<Longrightarrow>
   \<exists>e. retryFn ue um res s = ((retryHintOf res, Some (API e)), s)"
  by (auto simp: retryableFailure_def retryHintOf_def retryFn_def Let_def
           split: http_result.splits)

lemma retryFn_not_retryable:
  "\<not> retryableFailure res \<Longrightarrow> \<exists>e s'. retryFn ue um res s = ((None, e), s')"
  using retryFn_hint [of ue um res s] retryHintOf_iff [of res]
  by (metis prod.collapse)


lemma clientLoop_final:
  assumes "\<not> retryableFailure (tr a)" "int a \<le> maxRetries r"
    "maxRetries r < 9223372036854775807"
  shows "retryLoop r (\<lambda>i s. retryFn ue um (tr i) s) ctx rnd a lastErr a s =
           ((snd (fst (retryFn ue um (tr a) s)), a + 1), snd (retryFn ue um (tr a) s))"
proof -
  obtain e s' where f: "retryFn ue um (tr a) s = ((None, e), s')"
    using retryFn_not_retryable [OF assms(1)] by blast
  show ?thesis
  proof (cases e)
    case None
    show ?thesis
      using retryLoop_success [where fn = "\<lambda>i s. retryFn ue um (tr i) s",
          OF in_loop [OF assms(2, 3)]] f None
      by simp
  next
    case (Some err)
    show ?thesis
      using retryLoop_no_hint [where fn = "\<lambda>i s. retryFn ue um (tr i) s",
          OF in_loop [OF assms(2, 3)]] f Some
      by simp
  qed
qed

lemma clientLoop_exhausted:
  assumes "retryableFailure (tr a)" "int a = maxRetries r"
    "maxRetries r < 9223372036854775807"
  shows "retryLoop r (\<lambda>i s. retryFn ue um (tr i) s) ctx rnd a lastErr a s =
           ((snd (fst (retryFn ue um (tr a) s)), a + 1), s)"
proof -
  obtain e where f: "retryFn ue um (tr a) s = ((retryHintOf (tr a), Some (API e)), s)"
    using retryFn_retryable [OF assms(1)] by blast
  show ?thesis
    using retryLoop_exhausted [where fn = "\<lambda>i s. retryFn ue um (tr i) s",
        OF in_loop [OF _ assms(3)] assms(2)] assms(2) f
    by simp
qed

lemma clientLoop_cancelled:
  assumes "retryableFailure (tr a)" "int a < maxRetries r"
    "ctx a (calculateDelay r a (retryHintOf (tr a)) (rnd a)) = Some ce"
    "maxRetries r < 9223372036854775807"
  shows "retryLoop r (\<lambda>i s. retryFn ue um (tr i) s) ctx rnd a lastErr a s =
           ((Some (Ctx ce), a + 1), s)"
proof -
  obtain e where f: "retryFn ue um (tr a) s = ((retryHintOf (tr a), Some (API e)), s)"
    using retryFn_retryable [OF assms(1)] by blast
  obtain h where h: "retryHintOf (tr a) = Some h"
    using assms(1) retryHintOf_iff by blast
  show ?thesis
    using retryLoop_cancelled [where fn = "\<lambda>i s. retryFn ue um (tr i) s" and h = h
        and attempt = a and r = r and rnd = rnd and ctx = ctx]
      in_loop [OF _ assms(4), of a] f h assms(2, 3)
    by simp
qed

lemma clientLoop_waited:
  assumes "retryableFailure (tr a)" "int a < maxRetries r"
    "ctx a (calculateDelay r a (retryHintOf (tr a)) (rnd a)) = None"
    "maxRetries r < 9223372036854775807"
  shows "\<exists>e. retryLoop r (\<lambda>i s. retryFn ue um (tr i) s) ctx rnd a lastErr a s =
           retryLoop r (\<lambda>i s. retryFn ue um (tr i) s) ctx rnd (a + 1) (Some e) (a + 1) s"
proof -
  obtain e where f: "retryFn ue um (tr a) s = ((retryHintOf (tr a), Some (API e)), s)"
    using retryFn_retryable [OF assms(1)] by blast
  obtain h where h: "retryHintOf (tr a) = Some h"
    using assms(1) retryHintOf_iff by blast
  have "retryLoop r (\<lambda>i s. retryFn ue um (tr i) s) ctx rnd a lastErr a s =
          retryLoop r (\<lambda>i s. retryFn ue um (tr i) s) ctx rnd (a + 1) (Some (API e)) (a + 1) s"
    using retryLoop_waited [where fn = "\<lambda>i s. retryFn ue um (tr i) s" and h = h
        and attempt = a and r = r and rnd = rnd and ctx = ctx]
      in_loop [OF _ assms(4), of a] f h assms(2, 3)
    by simp
  then show ?thesis by blast
qed

lemma clientLoop_calls:
  assumes nc: "\<forall>i. int i < maxRetries r \<longrightarrow>
                 ctx i (calculateDelay r i (retryHintOf (tr i)) (rnd i)) = None"
    and rng: "maxRetries r < 9223372036854775807"
  shows "int a \<le> maxRetries r \<Longrightarrow> nat (maxRetries r) - a < m \<Longrightarrow>
    snd (fst (retryLoop r (\<lambda>i s. retryFn ue um (tr i) s) ctx rnd a lastErr a s)) =
      a + 1 + min (leadingRetryable tr a m) (nat (maxRetries r) - a)"
proof (induction m arbitrary: a lastErr s)
  case 0
  then show ?case by simp
next
  case (Suc m)
  show ?case
  proof (cases "retryableFailure (tr a)")
    case False
    then show ?thesis
      by (simp add: clientLoop_final [where tr = tr and a = a, OF False Suc.prems(1) rng])
  next
    case True
    show ?thesis
    proof (cases "int a = maxRetries r")
      case eq: True
      then show ?thesis
        using eq by (simp add: clientLoop_exhausted [where tr = tr and a = a, OF True eq rng])
    next
      case ne: False
      with Suc.prems have lt: "int a < maxRetries r" by simp
      obtain e where step:
        "retryLoop r (\<lambda>i s. retryFn ue um (tr i) s) ctx rnd a lastErr a s =
         retryLoop r (\<lambda>i s. retryFn ue um (tr i) s) ctx rnd (a + 1) (Some e) (a + 1) s"
        using clientLoop_waited [where tr = tr and a = a, OF True lt _ rng] nc lt by blast
      have le': "int (a + 1) \<le> maxRetries r" using lt by simp
      have m': "nat (maxRetries r) - (a + 1) < m" using Suc.prems lt by linarith
      have "snd (fst (retryLoop r (\<lambda>i s. retryFn ue um (tr i) s) ctx rnd (a + 1) (Some e) (a + 1) s)) =
          (a + 1) + 1 + min (leadingRetryable tr (a + 1) m) (nat (maxRetries r) - (a + 1))"
        using Suc.IH [OF le' m'] .
      with step True lt show ?thesis
        by (simp add: min_def) linarith
    qed
  qed
qed

lemma leadingRetryable_all:
  "(\<forall>i. retryableFailure (tr i)) \<Longrightarrow> leadingRetryable tr a m = m"
  by (induction m arbitrary: a) simp_all

lemma clientLoop_cancelled_at:
  assumes rf: "\<forall>i\<le>k. retryableFailure (tr i)"
    and nc: "\<forall>i<k. ctx i (calculateDelay r i (retryHintOf (tr i)) (rnd i)) = None"
    and c: "ctx k (calculateDelay r k (retryHintOf (tr k)) (rnd k)) = Some ce"
    and k: "int k < maxRetries r"
    and rng: "maxRetries r < 9223372036854775807"
  shows "a \<le> k \<Longrightarrow>
    retryLoop r (\<lambda>i s. retryFn ue um (tr i) s) ctx rnd a lastErr a s = ((Some (Ctx ce), k + 1), s)"
proof (induction "k - a" arbitrary: a lastErr)
  case 0
  then have "a = k" by simp
  then show ?case
    using rf c k rng
    by (simp add: clientLoop_cancelled [where tr = tr and a = k and r = r and ctx = ctx
                     and rnd = rnd and ce = ce])
next
  case (Suc n)
  then have lt: "a < k" by simp
  then have "int a < maxRetries r" using k by simp
  moreover have "retryableFailure (tr a)" using rf lt by simp
  moreover have "ctx a (calculateDelay r a (retryHintOf (tr a)) (rnd a)) = None"
    using nc lt by simp
  ultimately obtain e where step:
    "retryLoop r (\<lambda>i s. retryFn ue um (tr i) s) ctx rnd a lastErr a s =
     retryLoop r (\<lambda>i s. retryFn ue um (tr i) s) ctx rnd (a + 1) (Some e) (a + 1) s"
    using clientLoop_waited [where tr = tr and a = a and r = r and ctx = ctx and rnd = rnd] rng
    by blast
  have "n = k - (a + 1)" using Suc.hyps(2) by simp
  moreover have "a + 1 \<le> k" using lt by simp
  ultimately show ?case
    using Suc.hyps(1) [of "a + 1" "Some e"] step by simp
qed

lemma retryableFailure_samples:
  "retryableFailure (Received respServerError)" "retryableFailure (Received respRateLimited)"
  "\<not> retryableFailure (Received respOK)" "\<not> retryableFailure (Received respBadRequest)"
  by (simp_all add: retryableFailure_def isRetryable_def respServerError_def
        respRateLimited_def respOK_def respBadRequest_def)


text \<open>The loop up to the dispatch that ends the call.\<close>

lemma clientLoop_skip:
  assumes rf: "\<forall>i<k. retryableFailure (tr i)"
    and nc: "\<forall>i<k. ctx i (calculateDelay r i (retryHintOf (tr i)) (rnd i)) = None"
    and k: "int k \<le> maxRetries r"
    and rng: "maxRetries r < 9223372036854775807"
  shows "a \<le> k \<Longrightarrow>
    \<exists>le. retryLoop r (\<lambda>i s. retryFn ue um (tr i) s) ctx rnd a lastErr a s =
          retryLoop r (\<lambda>i s. retryFn ue um (tr i) s) ctx rnd k le k s"
proof (induction "k - a" arbitrary: a lastErr)
  case 0
  then have "a = k" by simp
  then show ?case by blast
next
  case (Suc n)
  then have lt: "a < k" by simp
  then have "int a < maxRetries r" using k by simp
  moreover have "retryableFailure (tr a)" using rf lt by simp
  moreover have "ctx a (calculateDelay r a (retryHintOf (tr a)) (rnd a)) = None"
    using nc lt by simp
  ultimately obtain e where step:
    "retryLoop r (\<lambda>i s. retryFn ue um (tr i) s) ctx rnd a lastErr a s =
     retryLoop r (\<lambda>i s. retryFn ue um (tr i) s) ctx rnd (a + 1) (Some e) (a + 1) s"
    using clientLoop_waited [where tr = tr and a = a and r = r and ctx = ctx and rnd = rnd] rng
    by blast
  have "n = k - (a + 1)" using Suc.hyps(2) by simp
  moreover have "a + 1 \<le> k" using lt by simp
  ultimately show ?case
    using Suc.hyps(1) [of "a + 1" "Some e"] step by simp
qed

text \<open>the call ends with the dispatch after \<open>k\<close> retried failures\<close>

lemma clientDo_ends_at:
  assumes r: "retry c = Some r"
    and rf: "\<forall>i<k. retryableFailure (tr i)"
    and nc: "\<forall>i<k. ctx i (calculateDelay r i (retryHintOf (tr i)) (rnd i)) = None"
    and k: "int k \<le> maxRetries r"
    and rng: "maxRetries r < 9223372036854775807"
    and last: "\<not> retryableFailure (tr k) \<or> int k = maxRetries r"
  shows "Client_do c ue um tr ctx rnd result =
           ((snd (fst (retryFn ue um (tr k) result)), k + 1), snd (retryFn ue um (tr k) result))"
proof -
  obtain le where skip:
    "retryLoop r (\<lambda>i s. retryFn ue um (tr i) s) ctx rnd 0 None 0 result =
     retryLoop r (\<lambda>i s. retryFn ue um (tr i) s) ctx rnd k le k result"
    using clientLoop_skip [where tr = tr and k = k and r = r and ctx = ctx and rnd = rnd
        and a = 0 and ue = ue and um = um and lastErr = None and s = result, OF rf nc k rng]
    by blast
  have "retryLoop r (\<lambda>i s. retryFn ue um (tr i) s) ctx rnd k le k result =
          ((snd (fst (retryFn ue um (tr k) result)), k + 1), snd (retryFn ue um (tr k) result))"
  proof (cases "retryableFailure (tr k)")
    case False
    then show ?thesis
      by (rule clientLoop_final [where tr = tr and a = k, OF _ k rng])
  next
    case True
    with last have eq: "int k = maxRetries r" by simp
    obtain e where "retryFn ue um (tr k) result = ((retryHintOf (tr k), Some (API e)), result)"
      using retryFn_retryable [OF True] by blast
    then show ?thesis
      using clientLoop_exhausted [where tr = tr and a = k and ue = ue and um = um
          and s = result, OF True eq rng]
      by simp
  qed
  with skip r show ?thesis
    by (simp add: Client_do_def retryConfig_do_def)
qed


text \<open>
  C1 as stated fails for the call under the retry policy: a response outside
  \<open>[200, 300)\<close> does not decide what the call returns when it is retried or when the wait
  that follows it is cancelled. After 429, 429, 200 the call returns success, and after
  a 500 whose wait is cancelled it returns the context's error, which is not an
  \<open>APIError\<close>.
\<close>

theorem call_classification_counterexample:
  "rateLimitedTwice 0 = Received respRateLimited \<and> resp_StatusCode respRateLimited = 429 \<and>
   Client_do retryClient sampleUnmarshalErr sampleUnmarshal rateLimitedTwice neverCancelled
       halfJitter (Some False) = ((None, 3), Some True) \<and>
   alwaysServerError 0 = Received respServerError \<and> resp_StatusCode respServerError = 500 \<and>
   Client_do retryClient sampleUnmarshalErr sampleUnmarshal alwaysServerError cancelledInFirstWait
       halfJitter (Some False) = ((Some (Ctx Canceled), 1), Some False)"
proof -
  have r: "retry retryClient = Some sampleRetry"
    by (simp add: retryClient_def sampleClient_def)
  have "Client_do retryClient sampleUnmarshalErr sampleUnmarshal rateLimitedTwice neverCancelled
          halfJitter (Some False) =
        ((snd (fst (retryFn sampleUnmarshalErr sampleUnmarshal (rateLimitedTwice 2) (Some False))),
          2 + 1),
         snd (retryFn sampleUnmarshalErr sampleUnmarshal (rateLimitedTwice 2) (Some False)))"
    by (rule clientDo_ends_at [where r = sampleRetry, OF r])
       (simp_all add: rateLimitedTwice_def retryableFailure_samples neverCancelled_def
          sampleRetry_def)
  then have a: "Client_do retryClient sampleUnmarshalErr sampleUnmarshal rateLimitedTwice
          neverCancelled halfJitter (Some False) = ((None, 3), Some True)"
    by (simp add: rateLimitedTwice_def retryFn_def respOK_def sampleUnmarshal_def)
  have "retryLoop sampleRetry
          (\<lambda>i s. retryFn sampleUnmarshalErr sampleUnmarshal (alwaysServerError i) s)
          cancelledInFirstWait halfJitter 0 None 0 (Some False) =
        ((Some (Ctx Canceled), 0 + 1), Some False)"
    by (rule clientLoop_cancelled_at [where k = 0])
       (simp_all add: alwaysServerError_def retryableFailure_samples cancelledInFirstWait_def
          sampleRetry_def)
  then have b: "Client_do retryClient sampleUnmarshalErr sampleUnmarshal alwaysServerError
          cancelledInFirstWait halfJitter (Some False) = ((Some (Ctx Canceled), 1), Some False)"
    using r by (simp add: Client_do_def retryConfig_do_def)
  show ?thesis
    using a b
    by (simp add: rateLimitedTwice_def alwaysServerError_def respRateLimited_def
          respServerError_def)
qed


text \<open>
  C1, amended. The call returns the classification of the response that ends it: a
  status in \<open>[200, 300)\<close> is a success (no error without a target, else the outcome of
  decoding the body into the target), any other status gives an \<open>APIError\<close>, and no
  other error, whose status code is that status and whose raw body is the body received.
  Without a retry configuration the one response ends the call. With one (the retry
  count below the largest \<^verbatim>\<open>int\<close>), the response to dispatch \<open>k + 1\<close>, received after
  \<open>k\<close> retryable failures whose waits all elapsed, ends the call when its status is in
  \<open>[200, 300)\<close>, or is not retryable, or when \<open>k\<close> is the retry count. A retryable
  response before that is retried, or its wait is cancelled, and the call returns what
  comes later.
\<close>

theorem call_classification:
  "(retry c = None \<and> tr 0 = Received resp \<longrightarrow>
      (200 \<le> resp_StatusCode resp \<and> resp_StatusCode resp < 300 \<longrightarrow>
         Client_do c ue um tr ctx rnd result =
           ((fst (decoded um (resp_Body resp) result), 1), snd (decoded um (resp_Body resp) result))) \<and>
      (\<not> (200 \<le> resp_StatusCode resp \<and> resp_StatusCode resp < 300) \<longrightarrow>
         Client_do c ue um tr ctx rnd result =
           ((Some (API (newAPIError ue (resp_StatusCode resp) (resp_Body resp))), 1), result))) \<and>
   (retry c = Some r \<and> maxRetries r < 9223372036854775807 \<and> int k \<le> maxRetries r \<and>
    (\<forall>i<k. retryableFailure (tr i)) \<and>
    (\<forall>i<k. ctx i (calculateDelay r i (retryHintOf (tr i)) (rnd i)) = None) \<and>
    tr k = Received resp \<longrightarrow>
      (200 \<le> resp_StatusCode resp \<and> resp_StatusCode resp < 300 \<longrightarrow>
         Client_do c ue um tr ctx rnd result =
           ((fst (decoded um (resp_Body resp) result), k + 1),
            snd (decoded um (resp_Body resp) result))) \<and>
      (\<not> (200 \<le> resp_StatusCode resp \<and> resp_StatusCode resp < 300) \<and>
       (\<not> isRetryable (resp_StatusCode resp) \<or> int k = maxRetries r) \<longrightarrow>
         Client_do c ue um tr ctx rnd result =
           ((Some (API (newAPIError ue (resp_StatusCode resp) (resp_Body resp))), k + 1), result))) \<and>
   StatusCode (newAPIError ue st body) = st \<and> RawBody (newAPIError ue st body) = body"
proof (intro conjI impI)
  assume a: "retry c = None \<and> tr 0 = Received resp"
    and s: "200 \<le> resp_StatusCode resp \<and> resp_StatusCode resp < 300"
  then show "Client_do c ue um tr ctx rnd result =
           ((fst (decoded um (resp_Body resp) result), 1), snd (decoded um (resp_Body resp) result))"
    using dispatch_classification [where resp = resp and result = result and ue = ue and um = um]
    by (simp add: Client_do_def decoded_def split: option.splits)
next
  assume a: "retry c = None \<and> tr 0 = Received resp"
    and s: "\<not> (200 \<le> resp_StatusCode resp \<and> resp_StatusCode resp < 300)"
  then show "Client_do c ue um tr ctx rnd result =
           ((Some (API (newAPIError ue (resp_StatusCode resp) (resp_Body resp))), 1), result)"
    using dispatch_classification [where resp = resp and result = result and ue = ue and um = um]
    by (simp add: Client_do_def)
next
  assume a: "retry c = Some r \<and> maxRetries r < 9223372036854775807 \<and> int k \<le> maxRetries r \<and>
    (\<forall>i<k. retryableFailure (tr i)) \<and>
    (\<forall>i<k. ctx i (calculateDelay r i (retryHintOf (tr i)) (rnd i)) = None) \<and>
    tr k = Received resp"
    and s: "200 \<le> resp_StatusCode resp \<and> resp_StatusCode resp < 300"
  then have "\<not> retryableFailure (tr k)"
    by (simp add: retryableFailure_def)
  then have "Client_do c ue um tr ctx rnd result =
           ((snd (fst (retryFn ue um (tr k) result)), k + 1), snd (retryFn ue um (tr k) result))"
    using a by (intro clientDo_ends_at [where r = r]) simp_all
  then show "Client_do c ue um tr ctx rnd result =
           ((fst (decoded um (resp_Body resp) result), k + 1),
            snd (decoded um (resp_Body resp) result))"
    using a s dispatch_classification [where resp = resp and result = result and ue = ue and um = um]
    by (simp add: decoded_def split: option.splits)
next
  assume a: "retry c = Some r \<and> maxRetries r < 9223372036854775807 \<and> int k \<le> maxRetries r \<and>
    (\<forall>i<k. retryableFailure (tr i)) \<and>
    (\<forall>i<k. ctx i (calculateDelay r i (retryHintOf (tr i)) (rnd i)) = None) \<and>
    tr k = Received resp"
    and s: "\<not> (200 \<le> resp_StatusCode resp \<and> resp_StatusCode resp < 300) \<and>
       (\<not> isRetryable (resp_StatusCode resp) \<or> int k = maxRetries r)"
  then have "\<not> retryableFailure (tr k) \<or> int k = maxRetries r"
    by (auto simp: retryableFailure_def)
  then have "Client_do c ue um tr ctx rnd result =
           ((snd (fst (retryFn ue um (tr k) result)), k + 1), snd (retryFn ue um (tr k) result))"
    using a by (intro clientDo_ends_at [where r = r]) simp_all
  then show "Client_do c ue um tr ctx rnd result =
           ((Some (API (newAPIError ue (resp_StatusCode resp) (resp_Body resp))), k + 1), result)"
    using a s dispatch_classification [where resp = resp and result = result and ue = ue and um = um]
    by simp
next
  show "StatusCode (newAPIError ue st body) = st" by (rule newAPIError_StatusCode)
  show "RawBody (newAPIError ue st body) = body" by (rule newAPIError_RawBody)
qed


theorem call_classification_witness:
  \<open>Client_do sampleClient sampleUnmarshalErr sampleUnmarshal (\<lambda>i. Received respOK) neverCancelled
       halfJitter (Some False) = ((None, 1), Some True) \<and>
   Client_do sampleClient sampleUnmarshalErr sampleUnmarshal (\<lambda>i. Received respInvalidKey)
       neverCancelled halfJitter (Some False) =
     ((Some (API \<lparr>StatusCode = 401, Message = ''Invalid key'',
                   RawBody = ''{"message":"Invalid key"}''\<rparr>), 1), Some False) \<and>
   Client_do retryClient sampleUnmarshalErr sampleUnmarshal rateLimitedTwice neverCancelled
       halfJitter (Some False) = ((None, 3), Some True) \<and>
   Client_do retryClient sampleUnmarshalErr sampleUnmarshal alwaysServerError neverCancelled
       halfJitter (Some False) =
     ((Some (API \<lparr>StatusCode = 500, Message = ''server error'',
                   RawBody = ''{"message":"server error"}''\<rparr>), 6), Some False) \<and>
   Client_do retryClient sampleUnmarshalErr sampleUnmarshal alwaysBadRequest neverCancelled
       halfJitter (Some False) =
     ((Some (API \<lparr>StatusCode = 400, Message = ''bad request'',
                   RawBody = ''{"message":"bad request"}''\<rparr>), 1), Some False)\<close>
proof -
  have r: "retry retryClient = Some sampleRetry" "retry sampleClient = None"
    "maxRetries sampleRetry = 5"
    by (simp_all add: retryClient_def sampleClient_def sampleRetry_def)
  have e: \<open>newAPIError sampleUnmarshalErr 401 ''{"message":"Invalid key"}'' =
             \<lparr>StatusCode = 401, Message = ''Invalid key'', RawBody = ''{"message":"Invalid key"}''\<rparr>\<close>
    \<open>newAPIError sampleUnmarshalErr 500 ''{"message":"server error"}'' =
             \<lparr>StatusCode = 500, Message = ''server error'', RawBody = ''{"message":"server error"}''\<rparr>\<close>
    \<open>newAPIError sampleUnmarshalErr 400 ''{"message":"bad request"}'' =
             \<lparr>StatusCode = 400, Message = ''bad request'', RawBody = ''{"message":"bad request"}''\<rparr>\<close>
    by (simp_all add: newAPIError_def sampleUnmarshalErr_def)
  have a: "Client_do sampleClient sampleUnmarshalErr sampleUnmarshal (\<lambda>i. Received respOK)
       neverCancelled halfJitter (Some False) = ((None, 1), Some True)"
    using r call_classification [where c = sampleClient and tr = "\<lambda>i. Received respOK"
        and resp = respOK and ue = sampleUnmarshalErr and um = sampleUnmarshal
        and result = "Some False" and ctx = neverCancelled and rnd = halfJitter,
        THEN conjunct1]
    by (simp add: respOK_def decoded_def sampleUnmarshal_def)
  have b: \<open>Client_do sampleClient sampleUnmarshalErr sampleUnmarshal (\<lambda>i. Received respInvalidKey)
       neverCancelled halfJitter (Some False) =
     ((Some (API \<lparr>StatusCode = 401, Message = ''Invalid key'',
                   RawBody = ''{"message":"Invalid key"}''\<rparr>), 1), Some False)\<close>
    using r e call_classification [where c = sampleClient and tr = "\<lambda>i. Received respInvalidKey"
        and resp = respInvalidKey and ue = sampleUnmarshalErr and um = sampleUnmarshal
        and result = "Some False" and ctx = neverCancelled and rnd = halfJitter,
        THEN conjunct1]
    by (simp add: respInvalidKey_def)
  have c: "Client_do retryClient sampleUnmarshalErr sampleUnmarshal rateLimitedTwice neverCancelled
       halfJitter (Some False) = ((None, 3), Some True)"
    using r call_classification [where c = retryClient and r = sampleRetry and k = 2
        and tr = rateLimitedTwice and resp = respOK and ue = sampleUnmarshalErr
        and um = sampleUnmarshal and result = "Some False" and ctx = neverCancelled
        and rnd = halfJitter, THEN conjunct2, THEN conjunct1]
    by (simp add: rateLimitedTwice_def retryableFailure_samples neverCancelled_def respOK_def
          decoded_def sampleUnmarshal_def)
  have h: "\<forall>i<5. retryableFailure (alwaysServerError i)"
    by (simp add: alwaysServerError_def retryableFailure_samples)
  have s: "resp_StatusCode respServerError = 500"
    \<open>resp_Body respServerError = ''{"message":"server error"}''\<close>
    by (simp_all add: respServerError_def)
  have d: \<open>Client_do retryClient sampleUnmarshalErr sampleUnmarshal alwaysServerError neverCancelled
       halfJitter (Some False) =
     ((Some (API \<lparr>StatusCode = 500, Message = ''server error'',
                   RawBody = ''{"message":"server error"}''\<rparr>), 6), Some False)\<close>
    using r e h s call_classification [where c = retryClient and r = sampleRetry and k = 5
        and tr = alwaysServerError and resp = respServerError and ue = sampleUnmarshalErr
        and um = sampleUnmarshal and result = "Some False" and ctx = neverCancelled
        and rnd = halfJitter, THEN conjunct2, THEN conjunct1]
    by (simp add: alwaysServerError_def neverCancelled_def)
  have f: \<open>Client_do retryClient sampleUnmarshalErr sampleUnmarshal alwaysBadRequest neverCancelled
       halfJitter (Some False) =
     ((Some (API \<lparr>StatusCode = 400, Message = ''bad request'',
                   RawBody = ''{"message":"bad request"}''\<rparr>), 1), Some False)\<close>
    using r e call_classification [where c = retryClient and r = sampleRetry and k = 0
        and tr = alwaysBadRequest and resp = respBadRequest and ue = sampleUnmarshalErr
        and um = sampleUnmarshal and result = "Some False" and ctx = neverCancelled
        and rnd = halfJitter, THEN conjunct2, THEN conjunct1]
    by (simp add: alwaysBadRequest_def respBadRequest_def isRetryable_def)
  show ?thesis
    by (intro conjI) (rule a b c d f)+
qed


text \<open>
  C3 as stated fails: the formula counts dispatch outcomes only, and the loop also ends
  when the caller cancels during a wait. With at most five retries, a server that always
  answers 500 and a cancellation during the first wait, one attempt is made, where the
  formula gives 2 for the one failure observed and 6 for the failures the server would
  have produced.
\<close>

theorem attempts_formula_counterexample:
  "snd (fst (Client_do retryClient sampleUnmarshalErr sampleUnmarshal alwaysServerError
               cancelledInFirstWait halfJitter (None :: bool option))) = 1 \<and>
   1 + min (leadingRetryable alwaysServerError 0 1) (nat (maxRetries sampleRetry)) = 2 \<and>
   1 + min (leadingRetryable alwaysServerError 0 6) (nat (maxRetries sampleRetry)) = 6"
proof -
  have "retryLoop sampleRetry (\<lambda>i s. retryFn sampleUnmarshalErr sampleUnmarshal (alwaysServerError i) s)
          cancelledInFirstWait halfJitter 0 None 0 (None :: bool option) =
        ((Some (Ctx Canceled), 0 + 1), None)"
    by (rule clientLoop_cancelled_at [where k = 0])
       (simp_all add: alwaysServerError_def retryableFailure_samples cancelledInFirstWait_def
          sampleRetry_def)
  then have "snd (fst (Client_do retryClient sampleUnmarshalErr sampleUnmarshal alwaysServerError
               cancelledInFirstWait halfJitter (None :: bool option))) = 1"
    by (simp add: Client_do_def retryConfig_do_def retryClient_def sampleClient_def)
  moreover have "leadingRetryable alwaysServerError 0 1 = 1"
    by (simp add: alwaysServerError_def retryableFailure_samples)
  moreover have "leadingRetryable alwaysServerError 0 6 = 6"
    by (rule leadingRetryable_all) (simp add: alwaysServerError_def retryableFailure_samples)
  ultimately show ?thesis
    by (simp add: sampleRetry_def)
qed


text \<open>
  C3, amended. For a client with a retry configuration of \<open>N \<ge> 0\<close> retries (\<open>N\<close>
  below the largest \<^verbatim>\<open>int\<close>, so that \<open>N + 1\<close> does not wrap) and every sequence of
  dispatch outcomes, when no wait between attempts is cut short by
  cancellation, the number of attempts is \<open>1 + min k N\<close>, with \<open>k\<close> the number of
  consecutive retryable failures the sequence starts with (counted up to any horizon
  \<open>m > N\<close>, which does not change the minimum); against a server that answers 500 to
  every attempt that is \<open>N + 1\<close>; and a client with no retry configuration makes
  exactly one attempt.
\<close>

theorem attempts_without_cancellation:
  "(retry c = Some r \<and> 0 \<le> maxRetries r \<and> maxRetries r < 9223372036854775807 \<and>
    nat (maxRetries r) < m \<and>
    (\<forall>i. int i < maxRetries r \<longrightarrow>
          ctx i (calculateDelay r i (retryHintOf (tr i)) (rnd i)) = None) \<longrightarrow>
      snd (fst (Client_do c ue um tr ctx rnd result)) =
        1 + min (leadingRetryable tr 0 m) (nat (maxRetries r))) \<and>
   (retry c = Some r \<and> 0 \<le> maxRetries r \<and> maxRetries r < 9223372036854775807 \<and>
    (\<forall>i. \<exists>resp. tr i = Received resp \<and> resp_StatusCode resp = 500) \<and>
    (\<forall>i. int i < maxRetries r \<longrightarrow>
          ctx i (calculateDelay r i (retryHintOf (tr i)) (rnd i)) = None) \<longrightarrow>
      snd (fst (Client_do c ue um tr ctx rnd result)) = nat (maxRetries r) + 1) \<and>
   (retry c = None \<longrightarrow> snd (fst (Client_do c ue um tr ctx rnd result)) = 1)"
proof (intro conjI impI)
  assume a: "retry c = Some r \<and> 0 \<le> maxRetries r \<and> maxRetries r < 9223372036854775807 \<and>
    nat (maxRetries r) < m \<and>
    (\<forall>i. int i < maxRetries r \<longrightarrow>
          ctx i (calculateDelay r i (retryHintOf (tr i)) (rnd i)) = None)"
  then show "snd (fst (Client_do c ue um tr ctx rnd result)) =
        1 + min (leadingRetryable tr 0 m) (nat (maxRetries r))"
    using clientLoop_calls [where r = r and ctx = ctx and tr = tr and rnd = rnd and a = 0
        and m = m and ue = ue and um = um and lastErr = None and s = result]
    by (simp add: Client_do_def retryConfig_do_def)
next
  assume a: "retry c = Some r \<and> 0 \<le> maxRetries r \<and> maxRetries r < 9223372036854775807 \<and>
    (\<forall>i. \<exists>resp. tr i = Received resp \<and> resp_StatusCode resp = 500) \<and>
    (\<forall>i. int i < maxRetries r \<longrightarrow>
          ctx i (calculateDelay r i (retryHintOf (tr i)) (rnd i)) = None)"
  have "\<forall>i. retryableFailure (tr i)"
  proof
    fix i
    from a obtain resp where "tr i = Received resp" "resp_StatusCode resp = 500" by blast
    then show "retryableFailure (tr i)"
      by (simp add: retryableFailure_def isRetryable_def)
  qed
  then have "leadingRetryable tr 0 (nat (maxRetries r) + 1) = nat (maxRetries r) + 1"
    by (rule leadingRetryable_all)
  then show "snd (fst (Client_do c ue um tr ctx rnd result)) = nat (maxRetries r) + 1"
    using a clientLoop_calls [where r = r and ctx = ctx and tr = tr and rnd = rnd and a = 0
        and m = "nat (maxRetries r) + 1" and ue = ue and um = um and lastErr = None
        and s = result]
    by (simp add: Client_do_def retryConfig_do_def)
next
  assume "retry c = None"
  then show "snd (fst (Client_do c ue um tr ctx rnd result)) = 1"
    by (simp add: Client_do_def split: prod.splits)
qed


theorem attempts_without_cancellation_witness:
  "snd (fst (Client_do retryClient sampleUnmarshalErr sampleUnmarshal rateLimitedTwice
               neverCancelled halfJitter (Some False))) = 3 \<and>
   snd (fst (Client_do retryClient sampleUnmarshalErr sampleUnmarshal alwaysServerError
               neverCancelled halfJitter (Some False))) = 6 \<and>
   snd (fst (Client_do sampleClient sampleUnmarshalErr sampleUnmarshal alwaysServerError
               neverCancelled halfJitter (Some False))) = 1"
proof -
  have l: "leadingRetryable rateLimitedTwice 0 6 = 2"
    by (simp add: eval_nat_numeral rateLimitedTwice_def retryableFailure_samples)
  have r: "retry retryClient = Some sampleRetry" "retry sampleClient = None"
    by (simp_all add: retryClient_def sampleClient_def)
  have m: "maxRetries sampleRetry = 5"
    by (simp add: sampleRetry_def)
  have s: "\<forall>i. \<exists>resp. alwaysServerError i = Received resp \<and> resp_StatusCode resp = 500"
    by (simp add: alwaysServerError_def respServerError_def)
  show ?thesis
    using attempts_without_cancellation [where c = retryClient and r = sampleRetry and m = 6
        and tr = rateLimitedTwice and ctx = neverCancelled and rnd = halfJitter
        and ue = sampleUnmarshalErr and um = sampleUnmarshal and result = "Some False"]
      attempts_without_cancellation [where c = retryClient and r = sampleRetry and m = 6
        and tr = alwaysServerError and ctx = neverCancelled and rnd = halfJitter
        and ue = sampleUnmarshalErr and um = sampleUnmarshal and result = "Some False"]
      attempts_without_cancellation [where c = sampleClient and r = sampleRetry and m = 6
        and tr = alwaysServerError and ctx = neverCancelled and rnd = halfJitter
        and ue = sampleUnmarshalErr and um = sampleUnmarshal and result = "Some False"]
      l r m s
    by (simp add: neverCancelled_def)
qed





text \<open>
  C9. When the wait after a retryable failure ends by the caller's cancellation (the
  loop waits in an iteration it runs, other than the last, after a failure with a hint),
  the loop returns the context's error at once: the error of the failed attempt is dropped and
  \<open>fn\<close> is not invoked again. For a logical call whose first \<open>k + 1\<close> dispatches are
  retryable failures, whose first \<open>k\<close> waits elapse and whose next wait is cancelled,
  the result is the context's error after exactly \<open>k + 1\<close> attempts. That error is
  never an \<open>APIError\<close>.
\<close>

theorem cancellation_during_wait:
  "(int attempt < loopBound r \<and> int attempt \<noteq> maxRetries r \<and>
    fn calls s = ((Some h, Some e), s') \<and>
    ctx' attempt (calculateDelay r attempt (Some h) (rnd' attempt)) = Some ce \<longrightarrow>
      retryLoop r fn ctx' rnd' attempt lastErr calls s = ((Some (Ctx ce), calls + 1), s')) \<and>
   (retry c = Some r \<and> int k < maxRetries r \<and> maxRetries r < 9223372036854775807 \<and>
    (\<forall>i\<le>k. retryableFailure (tr i)) \<and>
    (\<forall>i<k. ctx i (calculateDelay r i (retryHintOf (tr i)) (rnd i)) = None) \<and>
    ctx k (calculateDelay r k (retryHintOf (tr k)) (rnd k)) = Some ce \<longrightarrow>
      Client_do c ue um tr ctx rnd result = ((Some (Ctx ce), k + 1), result)) \<and>
   (\<forall>a. Ctx ce \<noteq> API a)"
proof (intro conjI impI)
  assume "int attempt < loopBound r \<and> int attempt \<noteq> maxRetries r \<and>
    fn calls s = ((Some h, Some e), s') \<and>
    ctx' attempt (calculateDelay r attempt (Some h) (rnd' attempt)) = Some ce"
  then show "retryLoop r fn ctx' rnd' attempt lastErr calls s = ((Some (Ctx ce), calls + 1), s')"
    by (simp add: retryLoop_cancelled)
next
  assume a: "retry c = Some r \<and> int k < maxRetries r \<and> maxRetries r < 9223372036854775807 \<and>
    (\<forall>i\<le>k. retryableFailure (tr i)) \<and>
    (\<forall>i<k. ctx i (calculateDelay r i (retryHintOf (tr i)) (rnd i)) = None) \<and>
    ctx k (calculateDelay r k (retryHintOf (tr k)) (rnd k)) = Some ce"
  then have "retryLoop r (\<lambda>i s. retryFn ue um (tr i) s) ctx rnd 0 None 0 result =
               ((Some (Ctx ce), k + 1), result)"
    by (intro clientLoop_cancelled_at) simp_all
  with a show "Client_do c ue um tr ctx rnd result = ((Some (Ctx ce), k + 1), result)"
    by (simp add: Client_do_def retryConfig_do_def)
next
  show "\<forall>a. Ctx ce \<noteq> API a" by simp
qed


theorem cancellation_during_wait_witness:
  "Client_do retryClient sampleUnmarshalErr sampleUnmarshal alwaysRateLimited
       cancelledInSecondWait halfJitter (Some False) =
     ((Some (Ctx DeadlineExceeded), 2), Some False) \<and>
   retryLoop sampleRetry
       (\<lambda>i s. ((Some \<lparr>retryAfter = ''2''\<rparr>, Some (API (newAPIError sampleUnmarshalErr 429 []))), s))
       cancelledInSecondWait halfJitter 1 None 1 (Some False) =
     ((Some (Ctx DeadlineExceeded), 2), Some False)"
proof -
  have r: "retry retryClient = Some sampleRetry" "int 1 < maxRetries sampleRetry"
    "maxRetries sampleRetry < 9223372036854775807"
    by (simp_all add: retryClient_def sampleClient_def sampleRetry_def)
  have l: "retryLoop sampleRetry
       (\<lambda>i s. ((Some \<lparr>retryAfter = ''2''\<rparr>, Some (API (newAPIError sampleUnmarshalErr 429 []))), s))
       cancelledInSecondWait halfJitter 1 None 1 (Some False) =
     ((Some (Ctx DeadlineExceeded), 2), Some False)"
    using cancellation_during_wait [where r = sampleRetry and attempt = 1 and calls = 1
          and fn = "\<lambda>i s. ((Some \<lparr>retryAfter = ''2''\<rparr>,
                            Some (API (newAPIError sampleUnmarshalErr 429 []))), s)"
          and s = "Some False" and s' = "Some False" and h = "\<lparr>retryAfter = ''2''\<rparr>"
          and e = "API (newAPIError sampleUnmarshalErr 429 [])"
          and ctx' = cancelledInSecondWait and rnd' = halfJitter and ce = DeadlineExceeded
          and lastErr = None, THEN conjunct1]
    by (simp add: loopBound_def wrap64_def sampleRetry_def cancelledInSecondWait_def)
  have "Client_do retryClient sampleUnmarshalErr sampleUnmarshal alwaysRateLimited
       cancelledInSecondWait halfJitter (Some False) =
     ((Some (Ctx DeadlineExceeded), 2), Some False)"
    using r
      cancellation_during_wait [where c = retryClient and r = sampleRetry and k = 1
        and tr = alwaysRateLimited and ctx = cancelledInSecondWait and rnd = halfJitter
        and ce = DeadlineExceeded and ue = sampleUnmarshalErr and um = sampleUnmarshal
        and result = "Some False", THEN conjunct2, THEN conjunct1]
    by (simp add: alwaysRateLimited_def retryableFailure_samples cancelledInSecondWait_def)
  with l show ?thesis by blast
qed

section \<open>Delay computation\<close>

subsection \<open>Rounding to \<^verbatim>\<open>float64\<close>\<close>

lemma roundEven_of_int: "roundEven (real_of_int n) = n"
  by (simp add: roundEven_def)

lemma roundEven_near: "\<bar>real_of_int (roundEven x) - x\<bar> \<le> 1 / 2"
  unfolding roundEven_def Let_def by (auto simp: abs_le_iff)

lemma roundEven_mono: "x \<le> y \<Longrightarrow> roundEven x \<le> roundEven y"
proof (cases "x = y")
  case True
  then show ?thesis by simp
next
  case False
  assume "x \<le> y"
  with False have lt: "x < y" by simp
  have "real_of_int (roundEven x) - 1 / 2 \<le> x"
    using roundEven_near [of x] by linarith
  moreover have "y \<le> real_of_int (roundEven y) + 1 / 2"
    using roundEven_near [of y] by linarith
  ultimately have "real_of_int (roundEven x) < real_of_int (roundEven y) + 1"
    using lt by linarith
  then show ?thesis by linarith
qed

lemma exponent_bounds:
  assumes "0 < x"
  shows "2 powr real_of_int \<lfloor>log 2 x\<rfloor> \<le> x"
    and "x < 2 powr (real_of_int \<lfloor>log 2 x\<rfloor> + 1)"
  using floor_log_eq_powr_iff [of x 2 "\<lfloor>log 2 x\<rfloor>"] assms by simp_all

text \<open>the scaled significand lies in [2^52, 2^53)\<close>

lemma significand_bounds:
  assumes "0 < x"
  defines "ulp \<equiv> 2 powr real_of_int (\<lfloor>log 2 x\<rfloor> - 52)"
  shows "2 ^ 52 \<le> x / ulp" and "x / ulp < 2 ^ 53" and "0 < ulp"
proof -
  let ?e = "real_of_int \<lfloor>log 2 x\<rfloor>"
  have ulp: "ulp = 2 powr ?e / 2 ^ 52"
    by (simp add: ulp_def powr_diff powr_realpow [of 2 52, simplified])
  show "0 < ulp" by (simp add: ulp_def)
  have e: "2 powr ?e \<le> x" "x < 2 powr ?e * 2"
    using exponent_bounds [OF assms(1)] by (simp_all add: powr_add)
  have p: "0 < 2 powr ?e" by simp
  have eq: "x / ulp = x / 2 powr ?e * 2 ^ 52"
    by (simp add: ulp)
  have a: "1 \<le> x / 2 powr ?e" using e(1) p by (simp add: le_divide_eq)
  have b: "x / 2 powr ?e < 2" using e(2) p by (simp add: divide_less_eq)
  have "1 * 2 ^ 52 \<le> x / 2 powr ?e * (2 ^ 52 :: real)"
    using a by (intro mult_right_mono) simp_all
  then show "2 ^ 52 \<le> x / ulp"
    unfolding eq by simp
  have "x / 2 powr ?e * (2 ^ 52 :: real) < 2 * 2 ^ 52"
    using b by (intro mult_strict_right_mono) simp_all
  then show "x / ulp < 2 ^ 53"
    unfolding eq by simp
qed

lemma float64_0: "float64 0 = 0"
  by (simp add: float64_def)

lemma float64_pos_bounds:
  assumes "0 < x"
  shows "2 powr real_of_int \<lfloor>log 2 x\<rfloor> \<le> float64 x"
    and "float64 x \<le> 2 powr (real_of_int \<lfloor>log 2 x\<rfloor> + 1)"
proof -
  let ?e = "real_of_int \<lfloor>log 2 x\<rfloor>"
  let ?ulp = "2 powr real_of_int (\<lfloor>log 2 x\<rfloor> - 52)"
  have ulp: "?ulp = 2 powr ?e / 2 ^ 52"
    by (simp add: powr_diff powr_realpow [of 2 52, simplified])
  have f: "float64 x = real_of_int (roundEven (x / ?ulp)) * ?ulp"
    using assms by (simp add: float64_def Let_def)
  have "roundEven (real_of_int (2 ^ 52)) \<le> roundEven (x / ?ulp)"
    using significand_bounds(1) [OF assms] by (intro roundEven_mono) simp
  then have lo: "2 ^ 52 \<le> real_of_int (roundEven (x / ?ulp))"
    unfolding roundEven_of_int by (metis of_int_le_iff of_int_numeral of_int_power)
  have "roundEven (x / ?ulp) \<le> roundEven (real_of_int (2 ^ 53))"
    using significand_bounds(2) [OF assms] by (intro roundEven_mono) simp
  then have hi: "real_of_int (roundEven (x / ?ulp)) \<le> 2 ^ 53"
    unfolding roundEven_of_int by (metis of_int_le_iff of_int_numeral of_int_power)
  have "2 powr ?e = 2 ^ 52 * ?ulp"
    unfolding ulp by simp
  also have "\<dots> \<le> real_of_int (roundEven (x / ?ulp)) * ?ulp"
    using lo by (intro mult_right_mono) simp_all
  finally show "2 powr ?e \<le> float64 x"
    by (simp only: f)
  have "float64 x = real_of_int (roundEven (x / ?ulp)) * ?ulp"
    by (rule f)
  also have "\<dots> \<le> 2 ^ 53 * ?ulp"
    using hi by (intro mult_right_mono) simp_all
  also have "\<dots> = 2 powr (?e + 1)"
    unfolding ulp by (simp add: powr_add)
  finally show "float64 x \<le> 2 powr (?e + 1)" .
qed

lemma float64_mono_pos:
  assumes "0 < x" "x \<le> y"
  shows "float64 x \<le> float64 y"
proof -
  have y: "0 < y" using assms by simp
  have le: "\<lfloor>log 2 x\<rfloor> \<le> \<lfloor>log 2 y\<rfloor>"
    using assms y by (intro floor_mono) simp
  show ?thesis
  proof (cases "\<lfloor>log 2 x\<rfloor> = \<lfloor>log 2 y\<rfloor>")
    case True
    let ?ulp = "2 powr real_of_int (\<lfloor>log 2 y\<rfloor> - 52)"
    have "roundEven (x / ?ulp) \<le> roundEven (y / ?ulp)"
      using assms by (intro roundEven_mono divide_right_mono) simp_all
    then have "real_of_int (roundEven (x / ?ulp)) * ?ulp \<le> real_of_int (roundEven (y / ?ulp)) * ?ulp"
      by (intro mult_right_mono) simp_all
    then show ?thesis
      using assms y True by (simp add: float64_def Let_def)
  next
    case False
    with le have "\<lfloor>log 2 x\<rfloor> + 1 \<le> \<lfloor>log 2 y\<rfloor>" by simp
    then have "real_of_int \<lfloor>log 2 x\<rfloor> + 1 \<le> real_of_int \<lfloor>log 2 y\<rfloor>" by linarith
    then have "2 powr (real_of_int \<lfloor>log 2 x\<rfloor> + 1) \<le> 2 powr real_of_int \<lfloor>log 2 y\<rfloor>"
      by simp
    then show ?thesis
      using float64_pos_bounds(2) [OF assms(1)] float64_pos_bounds(1) [OF y] by linarith
  qed
qed

lemma float64_nonneg: "0 \<le> x \<Longrightarrow> 0 \<le> float64 x"
proof (cases "x = 0")
  case True
  then show ?thesis by (simp add: float64_0)
next
  case False
  assume "0 \<le> x"
  with False have "0 < x" by simp
  from float64_pos_bounds(1) [OF this] show ?thesis
    by (meson order_trans powr_ge_zero)
qed

lemma float64_mono: "0 \<le> x \<Longrightarrow> x \<le> y \<Longrightarrow> float64 x \<le> float64 y"
  by (cases "x = 0") (auto simp: float64_0 float64_nonneg intro: float64_mono_pos)

lemma float64_exact:
  assumes n: "0 < n" "n < 2 ^ 53"
  shows "float64 (real_of_int n * 2 powr real_of_int j) = real_of_int n * 2 powr real_of_int j"
proof -
  let ?x = "real_of_int n * 2 powr real_of_int j"
  let ?e = "\<lfloor>log 2 ?x\<rfloor>"
  let ?ulp = "2 powr real_of_int (?e - 52)"
  have x: "0 < ?x" using n by simp
  have "real_of_int n < 2 ^ 53"
    using n(2) by simp
  then have "?x < 2 ^ 53 * 2 powr real_of_int j"
    by (intro mult_strict_right_mono) simp_all
  then have "?x < 2 powr (real_of_int j + 53)"
    by (simp add: powr_add powr_realpow [of 2 53, simplified] mult.commute)
  moreover have "2 powr real_of_int ?e \<le> ?x"
    using exponent_bounds(1) [OF x] .
  ultimately have "2 powr real_of_int ?e < 2 powr (real_of_int j + 53)"
    by linarith
  then have "real_of_int ?e < real_of_int j + 53" by simp
  then have d: "0 \<le> j - (?e - 52)" by linarith
  have "?x / ?ulp = real_of_int n * 2 powr (real_of_int j - real_of_int (?e - 52))"
    by (simp add: powr_diff)
  also have "real_of_int j - real_of_int (?e - 52) = real (nat (j - (?e - 52)))"
    using d by simp
  also have "real_of_int n * 2 powr real (nat (j - (?e - 52))) =
             real_of_int (n * 2 ^ nat (j - (?e - 52)))"
    by (simp add: powr_realpow)
  finally have "roundEven (?x / ?ulp) = n * 2 ^ nat (j - (?e - 52))"
    by (simp only: roundEven_of_int)
  then have "real_of_int (roundEven (?x / ?ulp)) * ?ulp =
             real_of_int n * 2 powr real (nat (j - (?e - 52))) * ?ulp"
    by (simp add: powr_realpow)
  also have "\<dots> = real_of_int n * (2 powr (real_of_int j - real_of_int (?e - 52)) * ?ulp)"
    using d by simp
  also have "\<dots> = ?x"
    by (simp add: powr_diff)
  finally show ?thesis
    using x by (simp add: float64_def Let_def)
qed


lemma float64_scaled:
  "0 < n \<Longrightarrow> n < 2 ^ 53 \<Longrightarrow> float64 (real_of_int n * 2 ^ k) = real_of_int n * 2 ^ k"
  using float64_exact [of n "int k"] by (simp add: powr_realpow)

lemma float64_dyadic:
  "0 < n \<Longrightarrow> n < 2 ^ 53 \<Longrightarrow> float64 (real_of_int n / 2 ^ k) = real_of_int n / 2 ^ k"
  using float64_exact [of n "- int k"] by (simp add: powr_minus powr_realpow divide_inverse)

lemma float64_of_int:
  "0 \<le> n \<Longrightarrow> n < 2 ^ 53 \<Longrightarrow> float64 (real_of_int n) = real_of_int n"
  using float64_scaled [of n 0] by (cases "n = 0") (simp_all add: float64_0)

lemma float64_half_int:
  "0 \<le> n \<Longrightarrow> n < 2 ^ 53 \<Longrightarrow> float64 (real_of_int n / 2) = real_of_int n / 2"
  using float64_dyadic [of n 1] by (cases "n = 0") (simp_all add: float64_0)

lemma float64_consts: "float64 1 = 1" "float64 (1 / 2) = 1 / 2" "float64 (1 / 4) = 1 / 4"
  "float64 (3 / 4) = 3 / 4"
  using float64_of_int [of 1] float64_dyadic [of 1 1] float64_dyadic [of 1 2] float64_dyadic [of 3 2]
  by simp_all

lemma float64_numeral:
  "numeral w < (2 ^ 53 :: int) \<Longrightarrow> float64 (numeral w) = numeral w"
  using float64_of_int [of "numeral w"] by simp

text \<open>the jitter factor lies in [1/2, 1]\<close>

lemma jitter_factor:
  assumes "0 \<le> u" "u < 1"
  shows "1 / 2 \<le> float64 (1 / 2 + float64 (u / 2))" and "float64 (1 / 2 + float64 (u / 2)) \<le> 1"
proof -
  have "float64 0 \<le> float64 (u / 2)"
    using assms by (intro float64_mono) simp_all
  then have lo: "0 \<le> float64 (u / 2)" by (simp add: float64_0)
  have "float64 (u / 2) \<le> float64 (1 / 2)"
    using assms by (intro float64_mono) simp_all
  then have hi: "float64 (u / 2) \<le> 1 / 2" by (simp add: float64_consts)
  have "float64 (1 / 2) \<le> float64 (1 / 2 + float64 (u / 2))"
    using lo by (intro float64_mono) simp_all
  then show "1 / 2 \<le> float64 (1 / 2 + float64 (u / 2))"
    by (simp add: float64_consts)
  have "float64 (1 / 2 + float64 (u / 2)) \<le> float64 1"
    using lo hi by (intro float64_mono) simp_all
  then show "float64 (1 / 2 + float64 (u / 2)) \<le> 1"
    by (simp add: float64_consts)
qed

text \<open>the rounding of a value whose exponent is known\<close>

lemma float64_at:
  assumes "0 < x" "ulp = 2 powr real_of_int (e - 52)" "2 ^ 52 * ulp \<le> x" "x < 2 ^ 53 * ulp"
  shows "float64 x = real_of_int (roundEven (x / ulp)) * ulp"
proof -
  have u: "2 powr real_of_int e = 2 ^ 52 * ulp"
    unfolding assms(2) by (simp add: powr_diff powr_realpow [symmetric] del: powr_numeral)
  have "\<lfloor>log 2 x\<rfloor> = e"
    using assms u floor_log_eq_powr_iff [of x 2 e] by (simp add: powr_add)
  then show ?thesis
    using assms(1, 2) by (simp add: float64_def Let_def)
qed

lemma float64_at_up:
  assumes "0 < x" "2 ^ 52 * 2 ^ n \<le> x" "x < 2 ^ 53 * 2 ^ n"
  shows "float64 x = real_of_int (roundEven (x / 2 ^ n)) * 2 ^ n"
proof -
  have "(2::real) ^ n = 2 powr real_of_int (52 + int n - 52)"
    by (simp add: powr_realpow)
  then show ?thesis
    using assms by (intro float64_at [where e = "52 + int n"])
qed

lemma float64_at_down:
  assumes "0 < x" "2 ^ 52 / 2 ^ n \<le> x" "x < 2 ^ 53 / 2 ^ n"
  shows "float64 x = real_of_int (roundEven (x * 2 ^ n)) / 2 ^ n"
proof -
  have "(1::real) / 2 ^ n = 2 powr real_of_int (52 - int n - 52)"
    by (simp add: powr_minus powr_realpow divide_inverse)
  then have "float64 x = real_of_int (roundEven (x / (1 / 2 ^ n))) * (1 / 2 ^ n)"
    using assms by (intro float64_at [where e = "52 - int n"]) simp_all
  then show ?thesis by simp
qed

lemma float64_above_2_53: "float64 9007199254740995 = 9007199254740996"
proof -
  have "float64 9007199254740995 = real_of_int (roundEven (9007199254740995 / 2 ^ 1)) * 2 ^ 1"
    by (rule float64_at_up) simp_all
  also have "roundEven (9007199254740995 / 2 ^ 1) = 4503599627370498"
    by (simp add: roundEven_def)
  finally show ?thesis by simp
qed

lemma float64_below_1: "float64 (18014398509481983 / 18014398509481984) = 1"
proof -
  have "float64 (18014398509481983 / 18014398509481984) =
        real_of_int (roundEven (18014398509481983 / 18014398509481984 * 2 ^ 53)) / 2 ^ 53"
    by (rule float64_at_down) simp_all
  also have "roundEven (18014398509481983 / 18014398509481984 * 2 ^ 53) = 9007199254740992"
    by (simp add: roundEven_def)
  finally show ?thesis by simp
qed

subsection \<open>The delay before a retry\<close>

lemma wrap64_id: "- (2 ^ 63) \<le> x \<Longrightarrow> x < 2 ^ 63 \<Longrightarrow> wrap64 x = x"
  by (simp add: wrap64_def)

lemma cappedBackoff_real:
  "real_of_int (cappedBackoff r k) =
     (if real_of_int (initialDelay r) * 2 ^ k > real_of_int (maxDelay r)
      then real_of_int (maxDelay r) else real_of_int (initialDelay r) * 2 ^ k)"
proof -
  have "real_of_int (initialDelay r) * 2 ^ k = real_of_int (initialDelay r * 2 ^ k)"
    by simp
  then have "real_of_int (initialDelay r) * 2 ^ k > real_of_int (maxDelay r) \<longleftrightarrow>
             initialDelay r * 2 ^ k > maxDelay r"
    by (simp only: of_int_less_iff)
  then show ?thesis
    by (simp add: cappedBackoff_def min_def)
qed

lemma cappedBackoff_range:
  assumes "0 < initialDelay r" "initialDelay r \<le> maxDelay r"
  shows "0 < cappedBackoff r k" and "cappedBackoff r k \<le> maxDelay r"
  using assms by (simp_all add: cappedBackoff_def)

lemma backoffDelay_eq:
  assumes "0 < initialDelay r" "initialDelay r \<le> maxDelay r" "maxDelay r < 2 ^ 53"
  shows "backoffDelay r k u =
           durationOfFloat (float64 (real_of_int (cappedBackoff r k) *
                            float64 (1 / 2 + float64 (u / 2))))"
proof -
  have d: "float64 (real_of_int (initialDelay r)) = real_of_int (initialDelay r)"
    using assms by (intro float64_of_int) simp_all
  have m: "float64 (real_of_int (maxDelay r)) = real_of_int (maxDelay r)"
    using assms by (intro float64_of_int) simp_all
  have p: "float64 (real_of_int (initialDelay r) * 2 ^ k) = real_of_int (initialDelay r) * 2 ^ k"
    using assms by (intro float64_scaled) simp_all
  show ?thesis
    unfolding backoffDelay_def Let_def d m p cappedBackoff_real [symmetric]
    by simp
qed

lemma backoffDelay_in_range:
  assumes "0 < initialDelay r" "initialDelay r \<le> maxDelay r" "maxDelay r < 2 ^ 53"
    "0 \<le> u" "u < 1"
  shows "cappedBackoff r k div 2 \<le> backoffDelay r k u"
    and "backoffDelay r k u \<le> cappedBackoff r k"
    and "even (cappedBackoff r k) \<Longrightarrow>
           real_of_int (cappedBackoff r k) / 2 \<le> real_of_int (backoffDelay r k u)"
proof -
  let ?b = "cappedBackoff r k"
  let ?f = "float64 (1 / 2 + float64 (u / 2))"
  let ?j = "float64 (real_of_int ?b * ?f)"
  have b: "0 < ?b" "?b < 2 ^ 53"
    using cappedBackoff_range [OF assms(1, 2), of k] assms(3) by simp_all
  have f: "1 / 2 \<le> ?f" "?f \<le> 1"
    using jitter_factor [OF assms(4, 5)] .
  have "real_of_int ?b * (1 / 2) \<le> real_of_int ?b * ?f"
    using b(1) f(1) by (intro mult_left_mono) simp_all
  then have "float64 (real_of_int ?b / 2) \<le> ?j"
    using b(1) by (intro float64_mono) simp_all
  then have lo: "real_of_int ?b / 2 \<le> ?j"
    using b by (simp add: float64_half_int)
  have "real_of_int ?b * ?f \<le> real_of_int ?b * 1"
    using b(1) f(2) by (intro mult_left_mono) simp_all
  moreover have "0 \<le> real_of_int ?b * ?f"
    using b(1) f(1) by simp
  ultimately have "?j \<le> float64 (real_of_int ?b)"
    by (intro float64_mono) simp_all
  then have hi: "?j \<le> real_of_int ?b"
    using b by (simp add: float64_of_int)
  have j0: "0 \<le> ?j" using lo b(1) by simp
  have eq: "backoffDelay r k u = \<lfloor>?j\<rfloor>"
    using j0 by (simp add: backoffDelay_eq [OF assms(1-3)] durationOfFloat_def)
  have "\<lfloor>real_of_int ?b / 2\<rfloor> \<le> \<lfloor>?j\<rfloor>"
    using lo by (rule floor_mono)
  moreover have "\<lfloor>real_of_int ?b / 2\<rfloor> = ?b div 2"
    by (metis floor_divide_of_int_eq of_int_numeral)
  ultimately show "?b div 2 \<le> backoffDelay r k u"
    using eq by simp
  have "\<lfloor>?j\<rfloor> \<le> \<lfloor>real_of_int ?b\<rfloor>"
    using hi by (rule floor_mono)
  then show "backoffDelay r k u \<le> ?b"
    using eq by simp
  show "real_of_int ?b / 2 \<le> real_of_int (backoffDelay r k u)" if "even ?b"
  proof -
    from that obtain c where c: "?b = 2 * c" by (elim evenE)
    then have "real_of_int c \<le> ?j" using lo by simp
    then have "c \<le> \<lfloor>?j\<rfloor>" by (simp add: le_floor_iff)
    then show ?thesis using eq c by simp
  qed
qed

text \<open>
  Above \<open>2 ^ 53\<close> nanoseconds the cap itself is rounded: a cap of \<open>2 ^ 53 + 3\<close> becomes
  \<open>2 ^ 53 + 4\<close>, the jitter factor of the largest draw \<open>1 - 2 ^ -53\<close> rounds to 1, and the
  delay is one nanosecond above the cap.
\<close>

lemma backoffDelay_above_cap:
  "backoffDelay hugeRetry 0 (9007199254740991 / 9007199254740992) = 9007199254740996"
proof -
  have a: "float64 (9007199254740991 / 18014398509481984) = 9007199254740991 / 18014398509481984"
    using float64_dyadic [of 9007199254740991 54] by simp
  have b: "float64 9007199254740996 = 9007199254740996"
    using float64_scaled [of 2251799813685249 2] by simp
  show ?thesis
    by (simp add: backoffDelay_def hugeRetry_def durationOfFloat_def float64_above_2_53 a
          float64_below_1 b)
qed


text \<open>
  C5 as stated fails on both of its halves. \<^verbatim>\<open>strconv.Atoi\<close> accepts a sign, so the
  value \<^verbatim>\<open>-5\<close>, which is not a non-negative integer, does not fall through to the
  backoff computation: the delay is minus five seconds, not the 75 ms of the backoff.
  And \<^verbatim>\<open>9223372037\<close> parses as a non-negative integer, but that many seconds do not
  fit the 64-bit nanosecond count and the product wraps around.
\<close>

theorem retryAfter_delay_counterexample:
  "Atoi ''-5'' = Some (- 5) \<and>
   calculateDelay optionRetry 0 (Some \<lparr>retryAfter = ''-5''\<rparr>) (1 / 2) = - 5000000000 \<and>
   backoffDelay optionRetry 0 (1 / 2) = 75000000 \<and>
   Atoi ''9223372037'' = Some 9223372037 \<and>
   calculateDelay optionRetry 0 (Some \<lparr>retryAfter = ''9223372037''\<rparr>) (1 / 2) =
     - 9223372036709551616"
  by (simp add: calculateDelay_def backoffDelay_def durationOfFloat_def Atoi_def isDigit_def
        wrap64_def time_Second_def optionRetry_def float64_consts float64_numeral)


text \<open>
  C5, amended. When the hint carries a retry-after value that \<^verbatim>\<open>strconv.Atoi\<close> parses
  as an integer \<open>n\<close> between \<open>-9223372036\<close> and \<open>9223372036\<close>, the delay is exactly
  \<open>n\<close> seconds (\<open>n * 10^9\<close> nanoseconds), whatever the attempt, the configuration and
  the jitter draw; a negative \<open>n\<close> gives a negative duration. A missing hint, an empty
  value and a value that \<^verbatim>\<open>Atoi\<close> rejects give the exponential-backoff computation.
\<close>

theorem retryAfter_delay:
  "(hint = Some h \<and> retryAfter h \<noteq> [] \<and> Atoi (retryAfter h) = Some n \<and>
    - 9223372036 \<le> n \<and> n \<le> 9223372036 \<longrightarrow>
      calculateDelay r k hint u = n * 1000000000) \<and>
   (hint = None \<or> (hint = Some h \<and> (retryAfter h = [] \<or> Atoi (retryAfter h) = None)) \<longrightarrow>
      calculateDelay r k hint u = backoffDelay r k u)"
  by (auto simp: calculateDelay_def time_Second_def wrap64_id)

theorem retryAfter_delay_witness:
  "calculateDelay \<lparr>maxRetries = 0, initialDelay = 1000000, maxDelay = 3600000000000\<rparr> 0
     (Some \<lparr>retryAfter = ''2''\<rparr>) (1 / 2) = 2000000000 \<and>
   calculateDelay optionRetry 0 (Some \<lparr>retryAfter = ''soon''\<rparr>) (1 / 2) =
     backoffDelay optionRetry 0 (1 / 2)"
proof -
  have a: "Atoi ''2'' = Some 2" "Atoi ''soon'' = None"
    by (simp_all add: Atoi_def isDigit_def)
  show ?thesis
    using a
      retryAfter_delay [where hint = "Some \<lparr>retryAfter = ''2''\<rparr>" and h = "\<lparr>retryAfter = ''2''\<rparr>"
        and n = 2 and k = 0 and u = "1 / 2"
        and r = "\<lparr>maxRetries = 0, initialDelay = 1000000, maxDelay = 3600000000000\<rparr>"]
      retryAfter_delay [where hint = "Some \<lparr>retryAfter = ''soon''\<rparr>"
        and h = "\<lparr>retryAfter = ''soon''\<rparr>" and k = 0 and u = "1 / 2" and r = optionRetry]
    by simp
qed


text \<open>
  C6 as stated fails: the jittered backoff is truncated to whole nanoseconds. With an
  initial delay of 1 ns at attempt 0 the capped backoff is 1 ns and the draw \<open>1/2\<close>
  gives \<open>0.75\<close>, truncated to 0, below the lower end \<open>0.5\<close> of the interval. And the
  computation is one of \<^verbatim>\<open>float64\<close>: with an initial delay and a cap of \<open>2 ^ 53 + 3\<close> ns
  the draw \<open>1 - 2 ^ -53\<close> gives \<open>2 ^ 53 + 4\<close> ns, above the upper end of the interval.
\<close>

theorem backoff_interval_counterexample:
  "calculateDelay nanoRetry 0 (Some \<lparr>retryAfter = []\<rparr>) (1 / 2) = 0 \<and>
   cappedBackoff nanoRetry 0 = 1 \<and>
   \<not> (0.5 * real_of_int (cappedBackoff nanoRetry 0) \<le>
        real_of_int (calculateDelay nanoRetry 0 (Some \<lparr>retryAfter = []\<rparr>) (1 / 2))) \<and>
   cappedBackoff hugeRetry 0 = 9007199254740995 \<and>
   calculateDelay hugeRetry 0 (Some \<lparr>retryAfter = []\<rparr>) (9007199254740991 / 9007199254740992) =
     9007199254740996 \<and>
   \<not> (calculateDelay hugeRetry 0 (Some \<lparr>retryAfter = []\<rparr>) (9007199254740991 / 9007199254740992)
        \<le> cappedBackoff hugeRetry 0)"
proof -
  have n: "calculateDelay nanoRetry 0 (Some \<lparr>retryAfter = []\<rparr>) (1 / 2) = 0"
    by (simp add: calculateDelay_def backoffDelay_def durationOfFloat_def nanoRetry_def
          float64_consts float64_numeral)
  have h: "calculateDelay hugeRetry 0 (Some \<lparr>retryAfter = []\<rparr>)
             (9007199254740991 / 9007199254740992) = 9007199254740996"
    by (simp add: calculateDelay_def backoffDelay_above_cap)
  have c: "cappedBackoff nanoRetry 0 = 1" "cappedBackoff hugeRetry 0 = 9007199254740995"
    by (simp_all add: cappedBackoff_def nanoRetry_def hugeRetry_def)
  show ?thesis
    unfolding n h c by simp
qed


text \<open>
  C6, amended. For a configuration with \<open>0 < D \<le> maxDelay < 2 ^ 53\<close> nanoseconds (about
  104 days), every attempt \<open>k\<close>, no retry-after value in the hint and every jitter draw
  \<open>u\<close> in \<open>[0, 1)\<close>, with \<open>b = min (D * 2^k) maxDelay\<close>: the delay lies between \<open>b\<close>
  halved and rounded down and \<open>b\<close>; it is at least \<open>0.5 * b\<close> whenever \<open>b\<close> is an even
  number of nanoseconds. Below \<open>2 ^ 53\<close> the initial delay, the cap and the capped backoff
  are \<^verbatim>\<open>float64\<close> values, and the rounding of the jitter factor and of the product
  keeps them within the two ends.
\<close>

theorem backoff_delay_bounds:
  "0 < initialDelay r \<and> initialDelay r \<le> maxDelay r \<and> maxDelay r < 9007199254740992 \<and>
   0 \<le> u \<and> u < 1 \<and> (hint = None \<or> (\<exists>h. hint = Some h \<and> retryAfter h = [])) \<longrightarrow>
     cappedBackoff r k div 2 \<le> calculateDelay r k hint u \<and>
     calculateDelay r k hint u \<le> cappedBackoff r k \<and>
     (even (cappedBackoff r k) \<longrightarrow>
        real_of_int (cappedBackoff r k) / 2 \<le> real_of_int (calculateDelay r k hint u))"
proof
  assume a: "0 < initialDelay r \<and> initialDelay r \<le> maxDelay r \<and>
   maxDelay r < 9007199254740992 \<and>
   0 \<le> u \<and> u < 1 \<and> (hint = None \<or> (\<exists>h. hint = Some h \<and> retryAfter h = []))"
  then have c: "calculateDelay r k hint u = backoffDelay r k u"
    by (auto simp: calculateDelay_def)
  have p: "0 < initialDelay r" "initialDelay r \<le> maxDelay r" "maxDelay r < 2 ^ 53"
    "0 \<le> u" "u < 1"
    using a by simp_all
  show "cappedBackoff r k div 2 \<le> calculateDelay r k hint u \<and>
     calculateDelay r k hint u \<le> cappedBackoff r k \<and>
     (even (cappedBackoff r k) \<longrightarrow>
        real_of_int (cappedBackoff r k) / 2 \<le> real_of_int (calculateDelay r k hint u))"
    unfolding c using backoffDelay_in_range [OF p] by blast
qed

theorem backoff_delay_bounds_witness:
  "cappedBackoff optionRetry 2 = 400000000 \<and>
   200000000 \<le> calculateDelay optionRetry 2 (Some \<lparr>retryAfter = []\<rparr>) (1 / 2) \<and>
   calculateDelay optionRetry 2 (Some \<lparr>retryAfter = []\<rparr>) (1 / 2) \<le> 400000000 \<and>
   cappedBackoff nanoRetry 0 div 2 \<le> calculateDelay nanoRetry 0 None (1 / 2)"
proof -
  have c: "cappedBackoff optionRetry 2 = 400000000"
    by (simp add: cappedBackoff_def optionRetry_def)
  show ?thesis
    using c
      backoff_delay_bounds [where r = optionRetry and k = 2 and u = "1 / 2"
        and hint = "Some \<lparr>retryAfter = []\<rparr>"]
      backoff_delay_bounds [where r = nanoRetry and k = 0 and u = "1 / 2" and hint = None]
    by (simp add: optionRetry_def nanoRetry_def)
qed

section \<open>URL construction\<close>

text \<open>The encoded pairs depend on the map only, not on the order of its entries.\<close>

lemma queryPairs_alt:
  "queryPairs v = concat (map (\<lambda>k. map (Pair k) (valuesOf v k)) (sorted_list_of_set (dom (map_of v))))"
proof -
  have "sort (remdups (map fst v)) = sorted_list_of_set (dom (map_of v))"
    by (simp add: dom_map_of_conv_image_fst sorted_list_of_set_sort_remdups [symmetric])
  then show ?thesis
    by (simp add: queryPairs_def valuesOf_def)
qed

lemma queryPairs_cong: "map_of xs = map_of ys \<Longrightarrow> queryPairs xs = queryPairs ys"
  by (simp add: queryPairs_alt valuesOf_def)

lemma map_of_Values_Set: "map_of (Values_Set v k x) = (map_of v)(k \<mapsto> [x])"
  by (simp add: Values_Set_def update_conv')

lemma filter_key_Pair:
  "filter (\<lambda>p. P (fst p)) (map (Pair k) xs) = (if P k then map (Pair k) xs else [])"
  by (induction xs) simp_all

lemma filter_key_concat:
  "filter (\<lambda>p. P (fst p)) (concat (map (\<lambda>k. map (Pair k) (f k)) ks)) =
   concat (map (\<lambda>k. map (Pair k) (f k)) (filter P ks))"
  by (induction ks) (simp_all add: filter_key_Pair)

lemma filter_eq_single: "distinct ks \<Longrightarrow> a \<in> set ks \<Longrightarrow> filter (\<lambda>k. k = a) ks = [a]"
  by (induction ks) (auto simp: filter_empty_conv)

lemma filter_sorted_list_of_set:
  assumes "finite S"
  shows "filter P (sorted_list_of_set S) = sorted_list_of_set {x \<in> S. P x}"
proof (rule sorted_distinct_set_unique)
  show "sorted (filter P (sorted_list_of_set S))"
    using sorted_filter [where f = "\<lambda>x. x" and xs = "sorted_list_of_set S" and P = P] by simp
  show "distinct (filter P (sorted_list_of_set S))" by simp
  show "sorted (sorted_list_of_set {x \<in> S. P x})" by simp
  show "distinct (sorted_list_of_set {x \<in> S. P x})" by simp
  show "set (filter P (sorted_list_of_set S)) = set (sorted_list_of_set {x \<in> S. P x})"
    using assms by auto
qed

lemma sorted_keys_concat:
  "sorted ks \<Longrightarrow> sorted (map fst (concat (map (\<lambda>k. map (Pair k) (f k)) ks)))"
proof (induction ks)
  case Nil
  then show ?case by simp
next
  case (Cons k ks)
  have "map fst (map (Pair k) (f k)) = replicate (length (f k)) k"
    by (induction "f k" arbitrary: f) (simp_all add: map_replicate_const comp_def)
  moreover have "\<forall>y \<in> set (map fst (concat (map (\<lambda>k. map (Pair k) (f k)) ks))). k \<le> y"
    using Cons.prems by auto
  ultimately show ?case
    using Cons by (simp add: sorted_append)
qed

lemma writePairs_append: "writePairs buf (xs @ ys) = writePairs (writePairs buf xs) ys"
  by (induction xs arbitrary: buf) auto

lemma writePairs_prefix: "\<exists>suf. writePairs buf ps = buf @ suf"
proof (induction ps arbitrary: buf)
  case Nil
  then show ?case by simp
next
  case (Cons p ps)
  obtain k x where p: "p = (k, x)" by (cases p)
  let ?b = "(if length buf > 0 then buf @ ''&'' else buf) @ QueryEscape k @ ''='' @ QueryEscape x"
  obtain suf where "writePairs ?b ps = ?b @ suf"
    using Cons.IH by blast
  then show ?case
    using p by (cases "length buf > 0") auto
qed

lemma writePairs_contains:
  assumes "(k, x) \<in> set ps"
  shows "\<exists>pre suf. writePairs buf ps = pre @ QueryEscape k @ ''='' @ QueryEscape x @ suf"
proof -
  obtain xs ys where ps: "ps = xs @ (k, x) # ys"
    using assms by (meson split_list)
  let ?b = "writePairs buf xs"
  let ?c = "(if length ?b > 0 then ?b @ ''&'' else ?b) @ QueryEscape k @ ''='' @ QueryEscape x"
  have "writePairs buf ps = writePairs ?c ys"
    by (simp add: ps writePairs_append)
  moreover obtain suf where "writePairs ?c ys = ?c @ suf"
    using writePairs_prefix by blast
  ultimately have "writePairs buf ps =
      (if length ?b > 0 then ?b @ ''&'' else ?b) @ QueryEscape k @ ''='' @ QueryEscape x @ suf"
    by simp
  then show ?thesis by blast
qed

lemma QueryEscape_apiKey: "QueryEscape ''apiKey'' = ''apiKey''"
  by (simp add: shouldEscape_def)


text \<open>
  C7 as stated fails: \<^verbatim>\<open>Values.Encode\<close> writes the parameters sorted by key, so the
  key is not last in the query string. With the one caller parameter \<^verbatim>\<open>text\<close> the
  query string is \<^verbatim>\<open>apiKey=test-key&text=Berlin\<close>.
\<close>

theorem apiKey_last_counterexample:
  "buildURL sampleClient ''/v1/geocode/search'' (Some [(''text'', [''Berlin''])]) =
     ''https://api.example.com/v1/geocode/search?apiKey=test-key&text=Berlin'' \<and>
   queryPairs (buildURL_params sampleClient (Some [(''text'', [''Berlin''])])) =
     [(''apiKey'', ''test-key''), (''text'', ''Berlin'')] \<and>
   last (queryPairs (buildURL_params sampleClient (Some [(''text'', [''Berlin''])]))) \<noteq>
     (''apiKey'', ''test-key'')"
  by code_simp



text \<open>
  C7, amended. In every built URL the query string has exactly one \<^verbatim>\<open>apiKey\<close>
  parameter, set to the client's credential, whatever values the caller supplied for
  that key; the caller's other parameters are kept as they are; the parameters come
  sorted by key, which fixes the place of \<^verbatim>\<open>apiKey\<close> among them (not the last place in
  general); and the query string is the \<^verbatim>\<open>&\<close>-joined writing of these pairs, so it
  contains \<^verbatim>\<open>apiKey=\<close> followed by the escaped credential.
\<close>

theorem apiKey_in_query:
  "filter (\<lambda>p. fst p = ''apiKey'') (queryPairs (buildURL_params c params)) =
     [(''apiKey'', apiKey c)] \<and>
   filter (\<lambda>p. fst p \<noteq> ''apiKey'') (queryPairs (buildURL_params c params)) =
     filter (\<lambda>p. fst p \<noteq> ''apiKey'') (queryPairs (case params of None \<Rightarrow> [] | Some p \<Rightarrow> p)) \<and>
   sorted (map fst (queryPairs (buildURL_params c params))) \<and>
   buildURL_query c params = writePairs [] (queryPairs (buildURL_params c params)) \<and>
   (\<exists>pre suf. buildURL_query c params = pre @ ''apiKey='' @ QueryEscape (apiKey c) @ suf)"
proof -
  let ?v = "case params of None \<Rightarrow> [] | Some p \<Rightarrow> p"
  let ?v' = "buildURL_params c params"
  let ?a = "''apiKey''"
  have m: "map_of ?v' = (map_of ?v)(?a \<mapsto> [apiKey c])"
    by (simp add: buildURL_params_def map_of_Values_Set)
  have d: "dom (map_of ?v') = insert ?a (dom (map_of ?v))"
    by (simp add: m)
  have fin: "finite (dom (map_of ?v))" "finite (dom (map_of ?v'))"
    by (simp_all add: finite_dom_map_of)
  have va: "valuesOf ?v' ?a = [apiKey c]"
    by (simp add: valuesOf_def m)
  have vo: "valuesOf ?v' k = valuesOf ?v k" if "k \<noteq> ?a" for k
    using that by (simp add: valuesOf_def m)
  have "filter (\<lambda>k. k = ?a) (sorted_list_of_set (dom (map_of ?v'))) = [?a]"
  proof (rule filter_eq_single)
    show "distinct (sorted_list_of_set (dom (map_of ?v')))" by simp
    show "?a \<in> set (sorted_list_of_set (dom (map_of ?v')))"
      using fin(2) d by (simp del: sorted_list_of_set_insert_remove)
  qed
  then have one: "filter (\<lambda>p. fst p = ?a) (queryPairs ?v') = [(?a, apiKey c)]"
    unfolding queryPairs_alt filter_key_concat [where P = "\<lambda>k. k = ?a"]
    by (simp add: va)
  have "{x \<in> dom (map_of ?v'). x \<noteq> ?a} = {x \<in> dom (map_of ?v). x \<noteq> ?a}"
    unfolding d by auto
  then have ks: "filter (\<lambda>k. k \<noteq> ?a) (sorted_list_of_set (dom (map_of ?v'))) =
                 filter (\<lambda>k. k \<noteq> ?a) (sorted_list_of_set (dom (map_of ?v)))"
    by (simp add: filter_sorted_list_of_set fin)
  have others: "filter (\<lambda>p. fst p \<noteq> ?a) (queryPairs ?v') =
                filter (\<lambda>p. fst p \<noteq> ?a) (queryPairs ?v)"
    unfolding queryPairs_alt filter_key_concat [where P = "\<lambda>k. k \<noteq> ?a"] ks
    by (rule arg_cong [where f = concat]) (simp add: vo)
  have srt: "sorted (map fst (queryPairs ?v'))"
    unfolding queryPairs_alt by (rule sorted_keys_concat) simp
  have enc: "buildURL_query c params = writePairs [] (queryPairs ?v')"
    by (simp add: buildURL_query_def Values_Encode_def)
  have "(?a, apiKey c) \<in> set (filter (\<lambda>p. fst p = ?a) (queryPairs ?v'))"
    unfolding one by simp
  then have "(?a, apiKey c) \<in> set (queryPairs ?v')"
    by simp
  then have "\<exists>pre suf. writePairs [] (queryPairs ?v') =
                pre @ QueryEscape ?a @ ''='' @ QueryEscape (apiKey c) @ suf"
    by (rule writePairs_contains)
  then have str: "\<exists>pre suf. buildURL_query c params = pre @ ''apiKey='' @ QueryEscape (apiKey c) @ suf"
    unfolding enc QueryEscape_apiKey by simp
  show ?thesis
    using one others srt enc str by blast
qed

theorem apiKey_in_query_witness:
  "filter (\<lambda>p. fst p = ''apiKey'') (queryPairs (buildURL_params sampleClient (Some reversedParams))) =
     [(''apiKey'', ''test-key'')] \<and>
   filter (\<lambda>p. fst p \<noteq> ''apiKey'') (queryPairs (buildURL_params sampleClient (Some reversedParams))) =
     [(''lang'', ''de''), (''text'', ''Berlin'')] \<and>
   sorted (map fst (queryPairs (buildURL_params sampleClient (Some reversedParams))))"
proof -
  have "filter (\<lambda>p. fst p \<noteq> ''apiKey'') (queryPairs reversedParams) =
          [(''lang'', ''de''), (''text'', ''Berlin'')]"
    by code_simp
  then show ?thesis
    using apiKey_in_query [where c = sampleClient and params = "Some reversedParams"]
    by (simp add: sampleClient_def)
qed


text \<open>
  C8. Building the URL is a function of the base URL, the path, the credential and the
  parameter map alone: two representations of the same map (any iteration order of the
  Go map) give the same query string and URL; building again from the parameters the
  first call left behind (with the key stored in the caller's map) gives the same URL;
  and a nil map builds as an empty one.
\<close>

theorem buildURL_deterministic:
  "(map_of xs = map_of ys \<longrightarrow>
      buildURL_query c (Some xs) = buildURL_query c (Some ys) \<and>
      buildURL c path (Some xs) = buildURL c path (Some ys)) \<and>
   buildURL c path (Some (buildURL_params c params)) = buildURL c path params \<and>
   buildURL c path None = buildURL c path (Some [])"
proof -
  have a: "map_of xs = map_of ys \<longrightarrow>
      buildURL_query c (Some xs) = buildURL_query c (Some ys) \<and>
      buildURL c path (Some xs) = buildURL c path (Some ys)"
  proof
    assume "map_of xs = map_of ys"
    then have "map_of (buildURL_params c (Some xs)) = map_of (buildURL_params c (Some ys))"
      by (simp add: buildURL_params_def map_of_Values_Set)
    then have "queryPairs (buildURL_params c (Some xs)) = queryPairs (buildURL_params c (Some ys))"
      by (rule queryPairs_cong)
    then show "buildURL_query c (Some xs) = buildURL_query c (Some ys) \<and>
      buildURL c path (Some xs) = buildURL c path (Some ys)"
      by (simp add: buildURL_def buildURL_query_def Values_Encode_def)
  qed
  have "map_of (buildURL_params c (Some (buildURL_params c params))) =
        map_of (buildURL_params c params)"
    by (simp add: buildURL_params_def map_of_Values_Set)
  then have "queryPairs (buildURL_params c (Some (buildURL_params c params))) =
        queryPairs (buildURL_params c params)"
    by (rule queryPairs_cong)
  then have b: "buildURL c path (Some (buildURL_params c params)) = buildURL c path params"
    by (simp add: buildURL_def buildURL_query_def Values_Encode_def)
  have c: "buildURL c path None = buildURL c path (Some [])"
    by (simp add: buildURL_def buildURL_query_def buildURL_params_def)
  show ?thesis using a b c by blast
qed


theorem buildURL_deterministic_witness:
  "buildURL sampleClient ''/v1/geocode/search'' (Some [(''text'', [''Berlin'']), (''lang'', [''de''])]) =
   buildURL sampleClient ''/v1/geocode/search'' (Some [(''lang'', [''de'']), (''text'', [''Berlin''])])"
proof -
  have "map_of [(''text'', [''Berlin'']), (''lang'', [''de''])] =
        map_of [(''lang'', [''de'']), (''text'', [''Berlin''])]"
    by (rule ext) simp
  then show ?thesis
    using buildURL_deterministic [where c = sampleClient and path = "''/v1/geocode/search''"
        and xs = "[(''text'', [''Berlin'']), (''lang'', [''de''])]"
        and ys = "[(''lang'', [''de'']), (''text'', [''Berlin''])]"]
    by blast
qed


section \<open>Batch result decoding\<close>

lemma bytes_trimLeft_dropWhile: "bytes_trimLeft data = dropWhile isWhitespace data"
  by (induction data) (auto simp: isWhitespace_def)

lemma trimmed_first:
  "(length (bytes_trimLeft data) > 0 \<and> bytes_trimLeft data ! 0 = c) \<longleftrightarrow> firstByte data = Some c"
  by (cases "dropWhile isWhitespace data")
     (simp_all add: bytes_trimLeft_dropWhile firstByte_def del: dropWhile_eq_Nil_conv)


text \<open>
  C10. \<open>Raw\<close> is always the input, on error too. \<open>bytes_trimLeft\<close> drops the leading
  spaces, tabs, newlines and carriage returns. When the first byte after them is
  \<^verbatim>\<open>[\<close>, the payload is decoded into \<open>Results\<close> and \<open>ID\<close> and \<open>Status\<close> stay as they
  were, empty for a fresh receiver; otherwise the payload is decoded as an object, a
  decode error is returned as it is, and on success \<open>ID\<close> and \<open>Status\<close> are those of the
  object while \<open>Results\<close> stays as it was, nil for a fresh receiver. So each call writes
  exactly one of the two variants.
\<close>

theorem UnmarshalJSON_variants:
  "Raw (snd (UnmarshalJSON ur uo r data)) = data \<and>
   bytes_trimLeft data = dropWhile isWhitespace data \<and>
   (firstByte data = Some (CHR ''['') \<longrightarrow>
      UnmarshalJSON ur uo r data =
        (fst (ur data (Results r)), r\<lparr>Raw := data, Results := snd (ur data (Results r))\<rparr>) \<and>
      ID (snd (UnmarshalJSON ur uo r data)) = ID r \<and>
      Status (snd (UnmarshalJSON ur uo r data)) = Status r \<and>
      ID (snd (UnmarshalJSON ur uo zeroBatchResultResponse data)) = [] \<and>
      Status (snd (UnmarshalJSON ur uo zeroBatchResultResponse data)) = []) \<and>
   (firstByte data \<noteq> Some (CHR ''['') \<longrightarrow>
      UnmarshalJSON ur uo r data =
        (case uo data of
           Inl err \<Rightarrow> (Some err, r\<lparr>Raw := data\<rparr>)
         | Inr (obj_ID, obj_Status) \<Rightarrow>
             (None, r\<lparr>ID := obj_ID, Status := obj_Status, Raw := data\<rparr>)) \<and>
      Results (snd (UnmarshalJSON ur uo r data)) = Results r \<and>
      Results (snd (UnmarshalJSON ur uo zeroBatchResultResponse data)) = None)"
proof -
  have br: "UnmarshalJSON ur uo r data =
      (if firstByte data = Some (CHR ''['') then
         (fst (ur data (Results r)), r\<lparr>Raw := data, Results := snd (ur data (Results r))\<rparr>)
       else
         (case uo data of
            Inl err \<Rightarrow> (Some err, r\<lparr>Raw := data\<rparr>)
          | Inr (obj_ID, obj_Status) \<Rightarrow>
              (None, r\<lparr>ID := obj_ID, Status := obj_Status, Raw := data\<rparr>)))" for r
    unfolding UnmarshalJSON_def Let_def trimmed_first
    by (simp split: prod.splits sum.splits)
  have raw: "Raw (snd (UnmarshalJSON ur uo r data)) = data"
    unfolding br by (simp split: sum.splits prod.splits)
  have arr: "ID (snd (UnmarshalJSON ur uo r data)) = ID r \<and>
             Status (snd (UnmarshalJSON ur uo r data)) = Status r"
    if "firstByte data = Some (CHR ''['')" for r
    unfolding br using that by simp
  have obj: "Results (snd (UnmarshalJSON ur uo r data)) = Results r"
    if "firstByte data \<noteq> Some (CHR ''['')" for r
    unfolding br using that by (simp split: sum.splits prod.splits)
  have zarr: "ID (snd (UnmarshalJSON ur uo zeroBatchResultResponse data)) = [] \<and>
              Status (snd (UnmarshalJSON ur uo zeroBatchResultResponse data)) = []"
    if "firstByte data = Some (CHR ''['')"
    using arr [OF that, of zeroBatchResultResponse] by (simp add: zeroBatchResultResponse_def)
  have zobj: "Results (snd (UnmarshalJSON ur uo zeroBatchResultResponse data)) = None"
    if "firstByte data \<noteq> Some (CHR ''['')"
    using obj [OF that, of zeroBatchResultResponse] by (simp add: zeroBatchResultResponse_def)
  show ?thesis
    using raw bytes_trimLeft_dropWhile [of data] br [of r] arr [of r] obj [of r] zarr zobj
    by (simp del: dropWhile_eq_Nil_conv)
qed

theorem UnmarshalJSON_variants_witness:
  \<open>UnmarshalJSON sampleUnmarshalResults sampleUnmarshalObj zeroBatchResultResponse
     '' [{"city":"Berlin"},{"city":"Paris"}]'' =
     (None, \<lparr>ID = [], Status = [], Results = Some [''Berlin'', ''Paris''],
             Raw = '' [{"city":"Berlin"},{"city":"Paris"}]''\<rparr>) \<and>
   UnmarshalJSON sampleUnmarshalResults sampleUnmarshalObj zeroBatchResultResponse
     ''{"id":"job-123","status":"pending"}'' =
     (None, \<lparr>ID = ''job-123'', Status = ''pending'', Results = None,
             Raw = ''{"id":"job-123","status":"pending"}''\<rparr>)\<close>
proof -
  have a: \<open>firstByte '' [{"city":"Berlin"},{"city":"Paris"}]'' = Some (CHR ''['')\<close>
    by (simp add: firstByte_def isWhitespace_def)
  have b: \<open>firstByte ''{"id":"job-123","status":"pending"}'' \<noteq> Some (CHR ''['')\<close>
    by (simp add: firstByte_def isWhitespace_def)
  show ?thesis
    using a b
      UnmarshalJSON_variants [where ur = sampleUnmarshalResults and uo = sampleUnmarshalObj
        and r = zeroBatchResultResponse and data = \<open>'' [{"city":"Berlin"},{"city":"Paris"}]''\<close>,
        THEN conjunct2, THEN conjunct2, THEN conjunct1]
      UnmarshalJSON_variants [where ur = sampleUnmarshalResults and uo = sampleUnmarshalObj
        and r = zeroBatchResultResponse and data = \<open>''{"id":"job-123","status":"pending"}''\<close>,
        THEN conjunct2, THEN conjunct2, THEN conjunct2]
    by (simp add: sampleUnmarshalResults_def sampleUnmarshalObj_def zeroBatchResultResponse_def)
qed


end
